theory Spec2Isabelle
  imports Complex_Main "HOL-Library.Multiset" "HOL-Library.AList"
begin

section \<open>Receipt aggregation: the data model\<close>

text \<open>
  The development embeds \<^verbatim>\<open>aggregate_results\<close> of
  \<^verbatim>\<open>scripts/agents/receipt_analysis_workflow.py\<close>: the accumulator of extraction
  results per blob, the filter of error results, the scoring, the stable descending sort
  and the merge of the ranked results with gap filling and item deduplication.

  Modelling decisions.
  \<^item> Python floats are modelled by exact rationals: the scoring arithmetic is the source's,
    without IEEE rounding, NaN or infinities.
  \<^item> A Python \<^verbatim>\<open>dict\<close> whose content matters is an association list in insertion
    order, written with \<open>AList.update\<close> (an existing key keeps its place, a new key
    is appended) and read with \<open>map_of\<close>.
  \<^item> A line item is a dict in the source; the model keeps the four keys the extractors
    write. \<^verbatim>\<open>item.get("description")\<close> is \<open>None\<close> both for a missing key and for
    a null value, so one \<open>string option\<close> stands for both, and a description is a string
    as in every extractor of the repository. The merge only copies the quantity and the
    prices, which are kept as text.
  \<^item> Strings are ASCII: \<open>lower\<close> maps A to Z only, and \<open>strip\<close> removes the ASCII
    white space of Python's \<^verbatim>\<open>str.strip()\<close>.
  \<^item> \<^verbatim>\<open>datetime.now().isoformat()\<close> is an argument \<open>now\<close> of the merge.
  \<^item> Writing files and printing are left out; the value passed to
    \<^verbatim>\<open>ctx.yield_output\<close> is the result: \<open>Inl NoValidResults\<close> for the message
    "No valid results to aggregate", \<open>Inr\<close> of the final record otherwise.
\<close>

type_synonym pyfloat = rat

record item =
  description :: "string option"
  quantity :: "string option"
  price :: "string option"
  total_price :: "string option"

record ReceiptExtractionResult =
  source :: string
  merchant_name :: "string option"
  transaction_date :: "string option"
  transaction_time :: "string option"
  total_amount :: "pyfloat option"
  currency :: "string option"
  items :: "item list"
  raw_response :: "(string \<times> string) list"
  confidence_score :: "pyfloat option"
  blob_name :: string

record item_attribution =
  attr_description :: "string option"
  attr_source :: string

record aggregation_metadata =
  processing_timestamp :: string
  meta_confidence_score :: pyfloat
  completeness_score :: pyfloat
  aggregation_score :: pyfloat
  best_source :: string
  source_scores :: "(string \<times> pyfloat) list"
  field_sources :: "(string \<times> string option) list"
  item_sources :: "item_attribution list"

record FinalReceiptData =
  final_merchant_name :: string
  final_transaction_date :: string
  final_transaction_time :: "string option"
  final_total_amount :: pyfloat
  final_currency :: string
  final_items :: "item list"
  metadata :: aggregation_metadata
  sources_used :: "string list"
  final_blob_name :: string

record scored_result =
  result :: ReceiptExtractionResult
  score :: pyfloat
  completeness :: pyfloat
  confidence :: pyfloat

datatype error = NoValidResults

section \<open>Python's truth tests and string normalisation\<close>

text \<open>\<^verbatim>\<open>if s:\<close> for an optional string: false for \<^verbatim>\<open>None\<close> and for \<^verbatim>\<open>""\<close>.\<close>

definition truthy_str :: "string option \<Rightarrow> bool" where
  "truthy_str s = (case s of None \<Rightarrow> False | Some t \<Rightarrow> t \<noteq> [])"

text \<open>\<^verbatim>\<open>s or d\<close> for an optional string and a default string.\<close>

definition str_or :: "string option \<Rightarrow> string \<Rightarrow> string" where
  "str_or s d = (case s of None \<Rightarrow> d | Some t \<Rightarrow> if t \<noteq> [] then t else d)"

text \<open>\<^verbatim>\<open>x or 0.0\<close> for an optional float: \<^verbatim>\<open>None\<close> and \<^verbatim>\<open>0.0\<close> are both false.\<close>

definition float_or_zero :: "pyfloat option \<Rightarrow> pyfloat" where
  "float_or_zero x = (case x of None \<Rightarrow> 0 | Some v \<Rightarrow> if v \<noteq> 0 then v else 0)"

definition char_lower :: "char \<Rightarrow> char" where
  "char_lower c =
     (let n = (of_char c :: nat) in if 65 \<le> n \<and> n \<le> 90 then char_of (n + 32) else c)"

definition lower :: "string \<Rightarrow> string" where
  "lower s = map char_lower s"

definition is_space :: "char \<Rightarrow> bool" where
  "is_space c = ((of_char c :: nat) \<in> {9, 10, 11, 12, 13, 28, 29, 30, 31, 32})"

definition strip :: "string \<Rightarrow> string" where
  "strip s = rev (dropWhile is_space (rev (dropWhile is_space s)))"

text \<open>\<^verbatim>\<open>desc_key = item["description"].lower().strip()\<close>\<close>

definition desc_key :: "string \<Rightarrow> string" where
  "desc_key d = strip (lower d)"

section \<open>Filtering and scoring\<close>

text \<open>
  \<^verbatim>\<open>not isinstance(r.raw_response, dict) or 'error' not in r.raw_response\<close>: the field is
  declared \<^verbatim>\<open>dict\<close>, so the test is the absence of the key.
\<close>

definition is_valid :: "ReceiptExtractionResult \<Rightarrow> bool" where
  "is_valid r = (''error'' \<notin> set (map fst (raw_response r)))"

definition source_priorities :: "(string \<times> int) list" where
  "source_priorities =
     [(''document_intelligence'', 3), (''mistral'', 2), (''direct_extraction'', 1)]"

text \<open>\<^verbatim>\<open>source_priorities.get(result.source, 0)\<close>\<close>

definition source_priority :: "string \<Rightarrow> int" where
  "source_priority s = (case map_of source_priorities s of Some p \<Rightarrow> p | None \<Rightarrow> 0)"

text \<open>The body of the scoring loop, for one valid result.\<close>

definition score_result :: "ReceiptExtractionResult \<Rightarrow> scored_result" where
  "score_result r =
     (let cs0 = (0 :: pyfloat); fc0 = (0 :: nat);
          (cs1, fc1) = (if truthy_str (merchant_name r) then (cs0 + 2, fc0 + 1) else (cs0, fc0));
          (cs2, fc2) = (if truthy_str (transaction_date r) then (cs1 + 2, fc1 + 1) else (cs1, fc1));
          (cs3, fc3) = (if total_amount r \<noteq> None then (cs2 + 3, fc2 + 1) else (cs2, fc2));
          (cs4, fc4) = (if truthy_str (currency r) then (cs3 + 1, fc3 + 1) else (cs3, fc3));
          (cs5, fc5) = (if items r \<noteq> []
                        then (cs4 + min (of_nat (length (items r)) * (1 / 2)) 5, fc4 + 1)
                        else (cs4, fc4));
          (cs6, fc6) = (if truthy_str (transaction_time r) then (cs5 + 1, fc5 + 1) else (cs5, fc5));
          normalized_completeness = (if fc6 > 0 then cs6 / of_nat fc6 else 0);
          conf = (case confidence_score r of Some c \<Rightarrow> c | None \<Rightarrow> 1 / 2);
          final_score = normalized_completeness * (7 / 10) + conf * (3 / 10);
          prio = of_int (source_priority (source r)) * (1 / 100)
      in \<lparr>result = r, score = final_score + prio,
          completeness = normalized_completeness, confidence = conf\<rparr>)"

text \<open>
  \<^verbatim>\<open>scored_results.sort(key=lambda x: x["score"], reverse=True)\<close>: Python's sort is stable,
  also with \<^verbatim>\<open>reverse=True\<close> (results of equal score keep their order). That is the
  stable ascending sort on the negated score.
\<close>

definition rank_results :: "ReceiptExtractionResult list \<Rightarrow> scored_result list" where
  "rank_results valid_results = sort_key (\<lambda>x. - score x) (map score_result valid_results)"

section \<open>The merge\<close>

text \<open>The local variables of the merge that the loops update.\<close>

record locals =
  v_merchant_name :: "string option"
  v_transaction_date :: "string option"
  v_transaction_time :: "string option"
  v_total_amount :: "pyfloat option"
  v_currency :: "string option"
  v_field_sources :: "(string \<times> string option) list"
  v_all_items :: "item list"
  v_seen :: "string set"
  v_item_sources :: "item_attribution list"

text \<open>The variables after the five assignments from the best result.\<close>

definition init_locals :: "ReceiptExtractionResult \<Rightarrow> locals" where
  "init_locals best =
     \<lparr>v_merchant_name = merchant_name best,
      v_transaction_date = transaction_date best,
      v_transaction_time = transaction_time best,
      v_total_amount = total_amount best,
      v_currency = currency best,
      v_field_sources =
        AList.update ''currency''
          (if truthy_str (currency best) then Some (source best) else None)
       (AList.update ''total_amount''
          (if total_amount best \<noteq> None then Some (source best) else None)
       (AList.update ''transaction_time''
          (if truthy_str (transaction_time best) then Some (source best) else None)
       (AList.update ''transaction_date''
          (if truthy_str (transaction_date best) then Some (source best) else None)
       (AList.update ''merchant_name''
          (if truthy_str (merchant_name best) then Some (source best) else None) [])))),
      v_all_items = [], v_seen = {}, v_item_sources = []\<rparr>"

text \<open>One round of the loop over the items of a result.\<close>

definition add_item :: "string \<Rightarrow> item \<Rightarrow> locals \<Rightarrow> locals" where
  "add_item src it st =
     (if truthy_str (description it) then
        (case description it of
           None \<Rightarrow> st
         | Some d \<Rightarrow>
             let k = desc_key d in
             if k \<notin> v_seen st then
               st\<lparr>v_seen := insert k (v_seen st),
                  v_all_items := v_all_items st @ [it],
                  v_item_sources := v_item_sources st @
                    [\<lparr>attr_description = description it, attr_source = src\<rparr>]\<rparr>
             else st)
      else st)"

text \<open>\<^verbatim>\<open>if result.items: for item in result.items: ...\<close>\<close>

definition add_items :: "ReceiptExtractionResult \<Rightarrow> locals \<Rightarrow> locals" where
  "add_items r st = (if items r \<noteq> [] then fold (add_item (source r)) (items r) st else st)"

text \<open>The five gap-filling statements, in the order of the source.\<close>

definition fill_merchant_name :: "ReceiptExtractionResult \<Rightarrow> locals \<Rightarrow> locals" where
  "fill_merchant_name r st =
     (if \<not> truthy_str (v_merchant_name st) \<and> truthy_str (merchant_name r)
      then st\<lparr>v_merchant_name := merchant_name r,
              v_field_sources := AList.update ''merchant_name'' (Some (source r)) (v_field_sources st)\<rparr>
      else st)"

definition fill_transaction_date :: "ReceiptExtractionResult \<Rightarrow> locals \<Rightarrow> locals" where
  "fill_transaction_date r st =
     (if \<not> truthy_str (v_transaction_date st) \<and> truthy_str (transaction_date r)
      then st\<lparr>v_transaction_date := transaction_date r,
              v_field_sources := AList.update ''transaction_date'' (Some (source r)) (v_field_sources st)\<rparr>
      else st)"

definition fill_transaction_time :: "ReceiptExtractionResult \<Rightarrow> locals \<Rightarrow> locals" where
  "fill_transaction_time r st =
     (if \<not> truthy_str (v_transaction_time st) \<and> truthy_str (transaction_time r)
      then st\<lparr>v_transaction_time := transaction_time r,
              v_field_sources := AList.update ''transaction_time'' (Some (source r)) (v_field_sources st)\<rparr>
      else st)"

definition fill_total_amount :: "ReceiptExtractionResult \<Rightarrow> locals \<Rightarrow> locals" where
  "fill_total_amount r st =
     (if v_total_amount st = None \<and> total_amount r \<noteq> None
      then st\<lparr>v_total_amount := total_amount r,
              v_field_sources := AList.update ''total_amount'' (Some (source r)) (v_field_sources st)\<rparr>
      else st)"

definition fill_currency :: "ReceiptExtractionResult \<Rightarrow> locals \<Rightarrow> locals" where
  "fill_currency r st =
     (if \<not> truthy_str (v_currency st) \<and> truthy_str (currency r)
      then st\<lparr>v_currency := currency r,
              v_field_sources := AList.update ''currency'' (Some (source r)) (v_field_sources st)\<rparr>
      else st)"

text \<open>The body of \<^verbatim>\<open>for scored in scored_results[1:]\<close>.\<close>

definition merge_step :: "scored_result \<Rightarrow> locals \<Rightarrow> locals" where
  "merge_step scored st =
     (let r = result scored in
      add_items r
        (fill_currency r (fill_total_amount r (fill_transaction_time r
          (fill_transaction_date r (fill_merchant_name r st))))))"

text \<open>
  \<^verbatim>\<open>{r["result"].source: r["score"] for r in scored_results}\<close>: a later result of the same
  source replaces the score, the key keeps its place.
\<close>

definition source_scores_of :: "scored_result list \<Rightarrow> (string \<times> pyfloat) list" where
  "source_scores_of scored_results =
     fold (\<lambda>r d. AList.update (source (result r)) (score r) d) scored_results []"

text \<open>
  The function from the filter of the error results to the final record. On a non-empty
  list of valid results the sorted list is not empty, so \<open>hd\<close> and \<open>tl\<close> are
  \<^verbatim>\<open>scored_results[0]\<close> and \<^verbatim>\<open>scored_results[1:]\<close>.
\<close>

definition merge_results :: "string \<Rightarrow> ReceiptExtractionResult list \<Rightarrow> error + FinalReceiptData" where
  "merge_results now results =
     (let valid_results = filter is_valid results in
      if valid_results = [] then Inl NoValidResults
      else
        let scored_results = rank_results valid_results;
            best_result = result (hd scored_results);
            st = fold merge_step (tl scored_results) (add_items best_result (init_locals best_result))
        in Inr
          \<lparr>final_merchant_name = str_or (v_merchant_name st) ''Unknown'',
           final_transaction_date = str_or (v_transaction_date st) ''Unknown'',
           final_transaction_time = v_transaction_time st,
           final_total_amount = float_or_zero (v_total_amount st),
           final_currency = str_or (v_currency st) ''USD'',
           final_items = v_all_items st,
           metadata =
             \<lparr>processing_timestamp = now,
              meta_confidence_score = confidence (hd scored_results),
              completeness_score = completeness (hd scored_results),
              aggregation_score = score (hd scored_results),
              best_source = source best_result,
              source_scores = source_scores_of scored_results,
              field_sources = v_field_sources st,
              item_sources = v_item_sources st\<rparr>,
           sources_used = map source valid_results,
           final_blob_name = blob_name (hd valid_results)\<rparr>)"


section \<open>The scoring formula as the specification words it\<close>

text \<open>
  A field is present when the source's truth test accepts it: an optional string that is
  neither \<^verbatim>\<open>None\<close> nor empty. The total amount is present when it is not
  \<^verbatim>\<open>None\<close>, a total of 0 included.
\<close>

definition present :: "string option \<Rightarrow> bool" where
  "present s = (s \<noteq> None \<and> s \<noteq> Some [])"

text \<open>The weights of the fields that are present, one entry per present field.\<close>

definition spec_weights :: "ReceiptExtractionResult \<Rightarrow> pyfloat list" where
  "spec_weights r =
     (if present (merchant_name r) then [2] else []) @
     (if present (transaction_date r) then [2] else []) @
     (if total_amount r \<noteq> None then [3] else []) @
     (if present (currency r) then [1] else []) @
     (if items r \<noteq> [] then [min (of_nat (length (items r)) * (1 / 2)) 5] else []) @
     (if present (transaction_time r) then [1] else [])"

definition spec_normalized_completeness :: "ReceiptExtractionResult \<Rightarrow> pyfloat" where
  "spec_normalized_completeness r =
     (if spec_weights r = [] then 0
      else sum_list (spec_weights r) / of_nat (length (spec_weights r)))"

definition spec_confidence :: "ReceiptExtractionResult \<Rightarrow> pyfloat" where
  "spec_confidence r = (case confidence_score r of Some c \<Rightarrow> c | None \<Rightarrow> 1 / 2)"

definition spec_score :: "ReceiptExtractionResult \<Rightarrow> pyfloat" where
  "spec_score r =
     7 / 10 * spec_normalized_completeness r + 3 / 10 * spec_confidence r
       + 1 / 100 * of_int (source_priority (source r))"

section \<open>Notions used to state the properties\<close>

text \<open>
  The five scalar fields in the order in which the merge writes their attribution, and
  the test the source applies to each to decide that a result has the field.
\<close>

definition scalar_fields :: "string list" where
  "scalar_fields =
     [''merchant_name'', ''transaction_date'', ''transaction_time'', ''total_amount'', ''currency'']"

definition has_field :: "string \<Rightarrow> ReceiptExtractionResult \<Rightarrow> bool" where
  "has_field f r =
     (if f = ''merchant_name'' then truthy_str (merchant_name r)
      else if f = ''transaction_date'' then truthy_str (transaction_date r)
      else if f = ''transaction_time'' then truthy_str (transaction_time r)
      else if f = ''total_amount'' then total_amount r \<noteq> None
      else if f = ''currency'' then truthy_str (currency r)
      else False)"

text \<open>An optional string that is absent or empty.\<close>

definition blank :: "string option \<Rightarrow> bool" where
  "blank s = (s = None \<or> s = Some [])"

text \<open>A result in which every empty string of a scalar field is replaced by an absent value.\<close>

definition drop_empty :: "string option \<Rightarrow> string option" where
  "drop_empty s = (if s = Some [] then None else s)"

definition without_empty_strings :: "ReceiptExtractionResult \<Rightarrow> ReceiptExtractionResult" where
  "without_empty_strings r =
     r\<lparr>merchant_name := drop_empty (merchant_name r),
       transaction_date := drop_empty (transaction_date r),
       transaction_time := drop_empty (transaction_time r),
       currency := drop_empty (currency r)\<rparr>"

text \<open>
  The valid results in rank order (the sorted list of the merge, without the scores), and
  the local variables of the merge when its loops are over.
\<close>

definition ranked_valid :: "ReceiptExtractionResult list \<Rightarrow> ReceiptExtractionResult list" where
  "ranked_valid results = map result (rank_results (filter is_valid results))"

definition final_locals :: "ReceiptExtractionResult list \<Rightarrow> locals" where
  "final_locals results =
     (let scored_results = rank_results (filter is_valid results);
          best_result = result (hd scored_results)
      in fold merge_step (tl scored_results) (add_items best_result (init_locals best_result)))"

text \<open>
  The normalized description of an item; the items of a list of results paired with the
  source of their result, in the order in which the merge visits them; the test that a
  visited item has a description and a given normalized description.
\<close>

definition item_key :: "item \<Rightarrow> string" where
  "item_key it = (case description it of None \<Rightarrow> [] | Some d \<Rightarrow> desc_key d)"

definition candidates :: "ReceiptExtractionResult list \<Rightarrow> (item \<times> string) list" where
  "candidates rs = concat (map (\<lambda>r. map (\<lambda>i. (i, source r)) (items r)) rs)"

definition has_key :: "string \<Rightarrow> item \<times> string \<Rightarrow> bool" where
  "has_key k c = (truthy_str (description (fst c)) \<and> item_key (fst c) = k)"

text \<open>
  The invariant of the item loops, for the items \<open>cs\<close> visited so far: the attribution
  list runs parallel to the item list, the seen set holds the normalized descriptions of
  the merged items, these are pairwise different, every merged item is the first visited
  item with its normalized description and is attributed to the source it was visited
  with, and every visited item with a description has its normalized description seen.
\<close>

definition items_inv :: "(item \<times> string) list \<Rightarrow> locals \<Rightarrow> bool" where
  "items_inv cs st =
     (length (v_item_sources st) = length (v_all_items st) \<and>
      v_seen st = item_key ` set (v_all_items st) \<and>
      distinct (map item_key (v_all_items st)) \<and>
      (\<forall>p \<in> set (zip (v_all_items st) (v_item_sources st)).
         find (has_key (item_key (fst p))) cs = Some (fst p, attr_source (snd p)) \<and>
         attr_description (snd p) = description (fst p)) \<and>
      (\<forall>c \<in> set cs. truthy_str (description (fst c)) \<longrightarrow> item_key (fst c) \<in> v_seen st))"

section \<open>Example results\<close>

text \<open>
  The two sources of the scenario of the specification, and a failed extraction as the
  \<^verbatim>\<open>except\<close> branches of the extractors build it.
\<close>

definition ex_doc :: ReceiptExtractionResult where
  "ex_doc =
     \<lparr>source = ''document_intelligence'', merchant_name = Some ''Cafe X'',
      transaction_date = None, transaction_time = None, total_amount = None,
      currency = None, items = [], raw_response = [],
      confidence_score = Some (9 / 10), blob_name = ''r1.jpg''\<rparr>"

definition ex_ocr :: ReceiptExtractionResult where
  "ex_ocr =
     \<lparr>source = ''mistral'', merchant_name = None,
      transaction_date = None, transaction_time = None, total_amount = Some (9 / 2),
      currency = Some ''USD'',
      items = [\<lparr>description = Some ''Latte'', quantity = None,
                price = Some ''4.50'', total_price = None\<rparr>],
      raw_response = [], confidence_score = Some (7 / 10), blob_name = ''r1.jpg''\<rparr>"

definition ex_failed :: ReceiptExtractionResult where
  "ex_failed =
     \<lparr>source = ''direct_extraction'', merchant_name = None,
      transaction_date = None, transaction_time = None, total_amount = None,
      currency = None, items = [], raw_response = [(''error'', ''timeout'')],
      confidence_score = None, blob_name = ''r1.jpg''\<rparr>"

text \<open>An OCR result that also read a merchant name, another one than \<open>ex_doc\<close>.\<close>

definition ex_ocr_named :: ReceiptExtractionResult where
  "ex_ocr_named = ex_ocr\<lparr>merchant_name := Some ''CAFE Y''\<rparr>"

text \<open>The first example with two fields read as empty strings.\<close>

definition ex_doc_blank :: ReceiptExtractionResult where
  "ex_doc_blank = ex_doc\<lparr>transaction_date := Some [], currency := Some []\<rparr>"

text \<open>
  The two examples with line items: both list a coffee, in different spellings; the OCR
  result also has an item without a description and one with an empty description.
\<close>

definition ex_doc_items :: ReceiptExtractionResult where
  "ex_doc_items =
     ex_doc\<lparr>items := [\<lparr>description = Some ''Coffee'', quantity = Some ''1'',
                        price = Some ''3.00'', total_price = Some ''3.00''\<rparr>]\<rparr>"

definition ex_ocr_items :: ReceiptExtractionResult where
  "ex_ocr_items =
     ex_ocr\<lparr>items := [\<lparr>description = Some ''  coffee  '', quantity = None,
                        price = Some ''3.50'', total_price = None\<rparr>,
                       \<lparr>description = Some ''Bagel'', quantity = None,
                        price = Some ''1.00'', total_price = None\<rparr>,
                       \<lparr>description = None, quantity = None,
                        price = Some ''0.25'', total_price = None\<rparr>,
                       \<lparr>description = Some [], quantity = None,
                        price = Some ''0.10'', total_price = None\<rparr>]\<rparr>"

text \<open>Two results of the same source and the same score that differ in the merchant name.\<close>

definition ex_tie_a :: ReceiptExtractionResult where
  "ex_tie_a =
     \<lparr>source = ''mistral'', merchant_name = Some ''Shop A'',
      transaction_date = None, transaction_time = None, total_amount = None,
      currency = None, items = [], raw_response = [],
      confidence_score = None, blob_name = ''r2.jpg''\<rparr>"

definition ex_tie_b :: ReceiptExtractionResult where
  "ex_tie_b = ex_tie_a\<lparr>merchant_name := Some ''Shop B''\<rparr>"

text \<open>A third result for the same receipt, with a higher score than the two tied ones.\<close>

definition ex_tie_top :: ReceiptExtractionResult where
  "ex_tie_top = ex_doc\<lparr>blob_name := ''r2.jpg''\<rparr>"

section \<open>The scalar fields through the loops\<close>

lemma fold_first_value:
  assumes step: "\<And>x st. g (stp x st) = (if \<not> t (g st) \<and> t (f x) then f x else g st)"
  shows "g (fold stp xs st) =
           (if t (g st) then g st
            else case find (\<lambda>x. t (f x)) xs of Some x \<Rightarrow> f x | None \<Rightarrow> g st)"
proof (induction xs arbitrary: st)
  case Nil
  then show ?case by simp
next
  case (Cons x xs)
  show ?case by (simp add: Cons.IH step split: option.splits)
qed

lemma fold_first_source:
  assumes step: "\<And>x st. g (stp x st) = (if \<not> t (g st) \<and> t (f x) then f x else g st)"
    and src: "\<And>x st. h (stp x st) = (if \<not> t (g st) \<and> t (f x) then Some (Some (s x)) else h st)"
  shows "h (fold stp xs st) =
           (if t (g st) then h st
            else case find (\<lambda>x. t (f x)) xs of Some x \<Rightarrow> Some (Some (s x)) | None \<Rightarrow> h st)"
proof (induction xs arbitrary: st)
  case Nil
  then show ?case by simp
next
  case (Cons x xs)
  show ?case by (simp add: Cons.IH step src split: option.splits)
qed

lemma add_item_scalars [simp]:
  "v_merchant_name (add_item s i st) = v_merchant_name st"
  "v_transaction_date (add_item s i st) = v_transaction_date st"
  "v_transaction_time (add_item s i st) = v_transaction_time st"
  "v_total_amount (add_item s i st) = v_total_amount st"
  "v_currency (add_item s i st) = v_currency st"
  "v_field_sources (add_item s i st) = v_field_sources st"
  by (simp_all add: add_item_def Let_def split: option.splits)

lemma fold_add_item_merchant_name [simp]:
  "v_merchant_name (fold (add_item s) is st) = v_merchant_name st"
  by (induction "is" arbitrary: st) simp_all

lemma fold_add_item_transaction_date [simp]:
  "v_transaction_date (fold (add_item s) is st) = v_transaction_date st"
  by (induction "is" arbitrary: st) simp_all

lemma fold_add_item_transaction_time [simp]:
  "v_transaction_time (fold (add_item s) is st) = v_transaction_time st"
  by (induction "is" arbitrary: st) simp_all

lemma fold_add_item_total_amount [simp]:
  "v_total_amount (fold (add_item s) is st) = v_total_amount st"
  by (induction "is" arbitrary: st) simp_all

lemma fold_add_item_currency [simp]:
  "v_currency (fold (add_item s) is st) = v_currency st"
  by (induction "is" arbitrary: st) simp_all

lemma fold_add_item_field_sources [simp]:
  "v_field_sources (fold (add_item s) is st) = v_field_sources st"
  by (induction "is" arbitrary: st) simp_all

lemma add_items_scalars [simp]:
  "v_merchant_name (add_items r st) = v_merchant_name st"
  "v_transaction_date (add_items r st) = v_transaction_date st"
  "v_transaction_time (add_items r st) = v_transaction_time st"
  "v_total_amount (add_items r st) = v_total_amount st"
  "v_currency (add_items r st) = v_currency st"
  "v_field_sources (add_items r st) = v_field_sources st"
  by (simp_all add: add_items_def)

lemma fill_merchant_name_simps [simp]:
  "v_merchant_name (fill_merchant_name r st) =
     (if \<not> truthy_str (v_merchant_name st) \<and> truthy_str (merchant_name r)
      then merchant_name r else v_merchant_name st)"
  "v_transaction_date (fill_merchant_name r st) = v_transaction_date st"
  "v_transaction_time (fill_merchant_name r st) = v_transaction_time st"
  "v_total_amount (fill_merchant_name r st) = v_total_amount st"
  "v_currency (fill_merchant_name r st) = v_currency st"
  "v_all_items (fill_merchant_name r st) = v_all_items st"
  "v_seen (fill_merchant_name r st) = v_seen st"
  "v_item_sources (fill_merchant_name r st) = v_item_sources st"
  "map_of (v_field_sources (fill_merchant_name r st)) k =
     (if k = ''merchant_name'' \<and> \<not> truthy_str (v_merchant_name st) \<and> truthy_str (merchant_name r)
      then Some (Some (source r)) else map_of (v_field_sources st) k)"
  "map fst (v_field_sources (fill_merchant_name r st)) =
     (if \<not> truthy_str (v_merchant_name st) \<and> truthy_str (merchant_name r) \<and> ''merchant_name'' \<notin> set (map fst (v_field_sources st))
      then map fst (v_field_sources st) @ [''merchant_name''] else map fst (v_field_sources st))"
  by (simp_all add: fill_merchant_name_def update_conv' update_keys)

lemma fill_transaction_date_simps [simp]:
  "v_transaction_date (fill_transaction_date r st) =
     (if \<not> truthy_str (v_transaction_date st) \<and> truthy_str (transaction_date r)
      then transaction_date r else v_transaction_date st)"
  "v_merchant_name (fill_transaction_date r st) = v_merchant_name st"
  "v_transaction_time (fill_transaction_date r st) = v_transaction_time st"
  "v_total_amount (fill_transaction_date r st) = v_total_amount st"
  "v_currency (fill_transaction_date r st) = v_currency st"
  "v_all_items (fill_transaction_date r st) = v_all_items st"
  "v_seen (fill_transaction_date r st) = v_seen st"
  "v_item_sources (fill_transaction_date r st) = v_item_sources st"
  "map_of (v_field_sources (fill_transaction_date r st)) k =
     (if k = ''transaction_date'' \<and> \<not> truthy_str (v_transaction_date st) \<and> truthy_str (transaction_date r)
      then Some (Some (source r)) else map_of (v_field_sources st) k)"
  "map fst (v_field_sources (fill_transaction_date r st)) =
     (if \<not> truthy_str (v_transaction_date st) \<and> truthy_str (transaction_date r) \<and> ''transaction_date'' \<notin> set (map fst (v_field_sources st))
      then map fst (v_field_sources st) @ [''transaction_date''] else map fst (v_field_sources st))"
  by (simp_all add: fill_transaction_date_def update_conv' update_keys)

lemma fill_transaction_time_simps [simp]:
  "v_transaction_time (fill_transaction_time r st) =
     (if \<not> truthy_str (v_transaction_time st) \<and> truthy_str (transaction_time r)
      then transaction_time r else v_transaction_time st)"
  "v_merchant_name (fill_transaction_time r st) = v_merchant_name st"
  "v_transaction_date (fill_transaction_time r st) = v_transaction_date st"
  "v_total_amount (fill_transaction_time r st) = v_total_amount st"
  "v_currency (fill_transaction_time r st) = v_currency st"
  "v_all_items (fill_transaction_time r st) = v_all_items st"
  "v_seen (fill_transaction_time r st) = v_seen st"
  "v_item_sources (fill_transaction_time r st) = v_item_sources st"
  "map_of (v_field_sources (fill_transaction_time r st)) k =
     (if k = ''transaction_time'' \<and> \<not> truthy_str (v_transaction_time st) \<and> truthy_str (transaction_time r)
      then Some (Some (source r)) else map_of (v_field_sources st) k)"
  "map fst (v_field_sources (fill_transaction_time r st)) =
     (if \<not> truthy_str (v_transaction_time st) \<and> truthy_str (transaction_time r) \<and> ''transaction_time'' \<notin> set (map fst (v_field_sources st))
      then map fst (v_field_sources st) @ [''transaction_time''] else map fst (v_field_sources st))"
  by (simp_all add: fill_transaction_time_def update_conv' update_keys)

lemma fill_currency_simps [simp]:
  "v_currency (fill_currency r st) =
     (if \<not> truthy_str (v_currency st) \<and> truthy_str (currency r)
      then currency r else v_currency st)"
  "v_merchant_name (fill_currency r st) = v_merchant_name st"
  "v_transaction_date (fill_currency r st) = v_transaction_date st"
  "v_transaction_time (fill_currency r st) = v_transaction_time st"
  "v_total_amount (fill_currency r st) = v_total_amount st"
  "v_all_items (fill_currency r st) = v_all_items st"
  "v_seen (fill_currency r st) = v_seen st"
  "v_item_sources (fill_currency r st) = v_item_sources st"
  "map_of (v_field_sources (fill_currency r st)) k =
     (if k = ''currency'' \<and> \<not> truthy_str (v_currency st) \<and> truthy_str (currency r)
      then Some (Some (source r)) else map_of (v_field_sources st) k)"
  "map fst (v_field_sources (fill_currency r st)) =
     (if \<not> truthy_str (v_currency st) \<and> truthy_str (currency r) \<and> ''currency'' \<notin> set (map fst (v_field_sources st))
      then map fst (v_field_sources st) @ [''currency''] else map fst (v_field_sources st))"
  by (simp_all add: fill_currency_def update_conv' update_keys)

lemma fill_total_amount_simps [simp]:
  "v_total_amount (fill_total_amount r st) =
     (if v_total_amount st = None \<and> total_amount r \<noteq> None
      then total_amount r else v_total_amount st)"
  "v_merchant_name (fill_total_amount r st) = v_merchant_name st"
  "v_transaction_date (fill_total_amount r st) = v_transaction_date st"
  "v_transaction_time (fill_total_amount r st) = v_transaction_time st"
  "v_currency (fill_total_amount r st) = v_currency st"
  "v_all_items (fill_total_amount r st) = v_all_items st"
  "v_seen (fill_total_amount r st) = v_seen st"
  "v_item_sources (fill_total_amount r st) = v_item_sources st"
  "map_of (v_field_sources (fill_total_amount r st)) k =
     (if k = ''total_amount'' \<and> v_total_amount st = None \<and> total_amount r \<noteq> None
      then Some (Some (source r)) else map_of (v_field_sources st) k)"
  "map fst (v_field_sources (fill_total_amount r st)) =
     (if v_total_amount st = None \<and> total_amount r \<noteq> None \<and> ''total_amount'' \<notin> set (map fst (v_field_sources st))
      then map fst (v_field_sources st) @ [''total_amount''] else map fst (v_field_sources st))"
  by (auto simp: fill_total_amount_def update_conv' update_keys)


lemma merge_step_merchant_name:
  "v_merchant_name (merge_step x st) =
     (if \<not> truthy_str (v_merchant_name st) \<and> truthy_str (merchant_name (result x))
      then merchant_name (result x) else v_merchant_name st)"
  by (simp add: merge_step_def Let_def)

lemma merge_step_transaction_date:
  "v_transaction_date (merge_step x st) =
     (if \<not> truthy_str (v_transaction_date st) \<and> truthy_str (transaction_date (result x))
      then transaction_date (result x) else v_transaction_date st)"
  by (simp add: merge_step_def Let_def)

lemma merge_step_transaction_time:
  "v_transaction_time (merge_step x st) =
     (if \<not> truthy_str (v_transaction_time st) \<and> truthy_str (transaction_time (result x))
      then transaction_time (result x) else v_transaction_time st)"
  by (simp add: merge_step_def Let_def)

lemma merge_step_total_amount:
  "v_total_amount (merge_step x st) =
     (if \<not> (v_total_amount st \<noteq> None) \<and> total_amount (result x) \<noteq> None
      then total_amount (result x) else v_total_amount st)"
  by (simp add: merge_step_def Let_def)

lemma merge_step_currency:
  "v_currency (merge_step x st) =
     (if \<not> truthy_str (v_currency st) \<and> truthy_str (currency (result x))
      then currency (result x) else v_currency st)"
  by (simp add: merge_step_def Let_def)

lemma merge_step_source_merchant_name:
  "map_of (v_field_sources (merge_step x st)) ''merchant_name'' =
     (if \<not> truthy_str (v_merchant_name st) \<and> truthy_str (merchant_name (result x))
      then Some (Some (source (result x))) else map_of (v_field_sources st) ''merchant_name'')"
  by (simp add: merge_step_def Let_def)

lemma merge_step_source_transaction_date:
  "map_of (v_field_sources (merge_step x st)) ''transaction_date'' =
     (if \<not> truthy_str (v_transaction_date st) \<and> truthy_str (transaction_date (result x))
      then Some (Some (source (result x))) else map_of (v_field_sources st) ''transaction_date'')"
  by (simp add: merge_step_def Let_def)

lemma merge_step_source_transaction_time:
  "map_of (v_field_sources (merge_step x st)) ''transaction_time'' =
     (if \<not> truthy_str (v_transaction_time st) \<and> truthy_str (transaction_time (result x))
      then Some (Some (source (result x))) else map_of (v_field_sources st) ''transaction_time'')"
  by (simp add: merge_step_def Let_def)

lemma merge_step_source_total_amount:
  "map_of (v_field_sources (merge_step x st)) ''total_amount'' =
     (if \<not> (v_total_amount st \<noteq> None) \<and> total_amount (result x) \<noteq> None
      then Some (Some (source (result x))) else map_of (v_field_sources st) ''total_amount'')"
  by (simp add: merge_step_def Let_def)

lemma merge_step_source_currency:
  "map_of (v_field_sources (merge_step x st)) ''currency'' =
     (if \<not> truthy_str (v_currency st) \<and> truthy_str (currency (result x))
      then Some (Some (source (result x))) else map_of (v_field_sources st) ''currency'')"
  by (simp add: merge_step_def Let_def)


lemma find_map_result:
  "find P (map f xs) = map_option f (find (\<lambda>x. P (f x)) xs)"
  by (induction xs) simp_all

lemma init_locals_simps [simp]:
  "v_merchant_name (init_locals b) = merchant_name b"
  "v_transaction_date (init_locals b) = transaction_date b"
  "v_transaction_time (init_locals b) = transaction_time b"
  "v_total_amount (init_locals b) = total_amount b"
  "v_currency (init_locals b) = currency b"
  "v_all_items (init_locals b) = []"
  "v_seen (init_locals b) = {}"
  "v_item_sources (init_locals b) = []"
  by (simp_all add: init_locals_def)

lemma init_locals_field_sources:
  "v_field_sources (init_locals b) =
     [(''merchant_name'', if truthy_str (merchant_name b) then Some (source b) else None),
      (''transaction_date'', if truthy_str (transaction_date b) then Some (source b) else None),
      (''transaction_time'', if truthy_str (transaction_time b) then Some (source b) else None),
      (''total_amount'', if total_amount b \<noteq> None then Some (source b) else None),
      (''currency'', if truthy_str (currency b) then Some (source b) else None)]"
  by (simp add: init_locals_def)

lemma locals_merchant_name:
  "v_merchant_name (fold merge_step rest (add_items (result b) (init_locals (result b)))) =
     (case find (\<lambda>r. truthy_str (merchant_name r)) (map result (b # rest)) of
        Some r \<Rightarrow> merchant_name r | None \<Rightarrow> merchant_name (result b))"
  by (subst fold_first_value [where g = v_merchant_name and t = truthy_str
        and f = "\<lambda>x. merchant_name (result x)"], rule merge_step_merchant_name)
     (simp add: find_map_result split: option.splits)

lemma locals_total_amount:
  "v_total_amount (fold merge_step rest (add_items (result b) (init_locals (result b)))) =
     (case find (\<lambda>r. total_amount r \<noteq> None) (map result (b # rest)) of
        Some r \<Rightarrow> total_amount r | None \<Rightarrow> total_amount (result b))"
  by (subst fold_first_value [where g = v_total_amount and t = "\<lambda>v. v \<noteq> None"
        and f = "\<lambda>x. total_amount (result x)"], rule merge_step_total_amount)
     (simp add: find_map_result split: option.splits)

lemma locals_source_merchant_name:
  "map_of (v_field_sources (fold merge_step rest (add_items (result b) (init_locals (result b)))))
       ''merchant_name'' =
     Some (map_option source (find (\<lambda>r. truthy_str (merchant_name r)) (map result (b # rest))))"
  by (subst fold_first_source [where g = v_merchant_name and t = truthy_str
        and f = "\<lambda>x. merchant_name (result x)" and s = "\<lambda>x. source (result x)"
        and h = "\<lambda>st. map_of (v_field_sources st) ''merchant_name''"],
      rule merge_step_merchant_name, rule merge_step_source_merchant_name)
     (simp add: find_map_result init_locals_field_sources split: option.splits)

lemma locals_source_total_amount:
  "map_of (v_field_sources (fold merge_step rest (add_items (result b) (init_locals (result b)))))
       ''total_amount'' =
     Some (map_option source (find (\<lambda>r. total_amount r \<noteq> None) (map result (b # rest))))"
  by (subst fold_first_source [where g = v_total_amount and t = "\<lambda>v. v \<noteq> None"
        and f = "\<lambda>x. total_amount (result x)" and s = "\<lambda>x. source (result x)"
        and h = "\<lambda>st. map_of (v_field_sources st) ''total_amount''"],
      rule merge_step_total_amount, rule merge_step_source_total_amount)
     (simp add: find_map_result init_locals_field_sources split: option.splits)

section \<open>The items through the loops\<close>

lemma find_append_cases:
  "find P (xs @ ys) = (case find P xs of None \<Rightarrow> find P ys | Some x \<Rightarrow> Some x)"
  by (induction xs) simp_all

lemma find_None_has_key:
  assumes "\<forall>c \<in> set cs. truthy_str (description (fst c)) \<longrightarrow> item_key (fst c) \<in> S"
    and "k \<notin> S"
  shows "find (has_key k) cs = None"
  using assms by (auto simp: find_None_iff has_key_def)

lemma add_item_cases:
  "add_item s i st =
     (if truthy_str (description i) \<and> item_key i \<notin> v_seen st
      then st\<lparr>v_seen := insert (item_key i) (v_seen st),
              v_all_items := v_all_items st @ [i],
              v_item_sources := v_item_sources st @
                [\<lparr>attr_description = description i, attr_source = s\<rparr>]\<rparr>
      else st)"
  by (simp add: add_item_def item_key_def truthy_str_def Let_def split: option.splits)

lemma items_inv_add_item:
  assumes "items_inv cs st"
  shows "items_inv (cs @ [(i, s)]) (add_item s i st)"
proof (cases "truthy_str (description i) \<and> item_key i \<notin> v_seen st")
  case False
  with assms show ?thesis
    by (auto simp: items_inv_def add_item_cases find_append_cases)
next
  case True
  from assms have len: "length (v_item_sources st) = length (v_all_items st)"
    unfolding items_inv_def by blast
  from assms have seen: "\<forall>c \<in> set cs. truthy_str (description (fst c)) \<longrightarrow> item_key (fst c) \<in> v_seen st"
    unfolding items_inv_def by blast
  from True have "item_key i \<notin> v_seen st" by simp
  with seen have none: "find (has_key (item_key i)) cs = None"
    by (rule find_None_has_key)
  from assms True len none show ?thesis
    by (auto simp: items_inv_def add_item_cases find_append_cases has_key_def)
qed

lemma items_inv_fold_add_item:
  "items_inv cs st \<Longrightarrow> items_inv (cs @ map (\<lambda>i. (i, s)) is) (fold (add_item s) is st)"
proof (induction "is" arbitrary: cs st)
  case Nil
  then show ?case by simp
next
  case (Cons i "is")
  from Cons.IH [OF items_inv_add_item [OF Cons.prems, of i s]] show ?case
    by simp
qed

lemma items_inv_add_items:
  "items_inv cs st \<Longrightarrow> items_inv (cs @ map (\<lambda>i. (i, source r)) (items r)) (add_items r st)"
  using items_inv_fold_add_item [of cs st "source r" "items r"]
  by (simp add: add_items_def)

lemma items_inv_fill:
  "items_inv cs (fill_currency r (fill_total_amount r (fill_transaction_time r
          (fill_transaction_date r (fill_merchant_name r st))))) = items_inv cs st"
  by (simp add: items_inv_def)

lemma items_inv_merge_step:
  "items_inv cs st \<Longrightarrow>
     items_inv (cs @ map (\<lambda>i. (i, source (result x))) (items (result x))) (merge_step x st)"
  by (simp add: merge_step_def Let_def items_inv_add_items items_inv_fill)

lemma candidates_Nil: "candidates [] = []"
  by (simp add: candidates_def)

lemma candidates_Cons:
  "candidates (r # rs) = map (\<lambda>i. (i, source r)) (items r) @ candidates rs"
  by (simp add: candidates_def)

lemma items_inv_fold_merge_step:
  "items_inv cs st \<Longrightarrow> items_inv (cs @ candidates (map result xs)) (fold merge_step xs st)"
proof (induction xs arbitrary: cs st)
  case Nil
  then show ?case by (simp add: candidates_Nil)
next
  case (Cons x xs)
  from Cons.IH [OF items_inv_merge_step [OF Cons.prems, of x]] show ?case
    by (simp add: candidates_Cons)
qed

lemma items_inv_init: "items_inv [] (init_locals b)"
  by (simp add: items_inv_def)

lemma items_inv_locals:
  "items_inv (candidates (map result (b # rest)))
     (fold merge_step rest (add_items (result b) (init_locals (result b))))"
proof -
  have "items_inv ([] @ map (\<lambda>i. (i, source (result b))) (items (result b)))
          (add_items (result b) (init_locals (result b)))"
    by (rule items_inv_add_items) (rule items_inv_init)
  from items_inv_fold_merge_step [OF this, of rest] show ?thesis
    by (simp add: candidates_Cons)
qed

section \<open>The merge in terms of the ranked results\<close>

lemma score_result_result [simp]: "result (score_result r) = r"
  by (simp add: score_result_def Let_def split: prod.splits)

lemma merge_results_Inr:
  assumes "merge_results now rs = Inr m"
  shows "filter is_valid rs \<noteq> []"
    and "final_merchant_name m = str_or (v_merchant_name (final_locals rs)) ''Unknown''"
    and "final_transaction_date m = str_or (v_transaction_date (final_locals rs)) ''Unknown''"
    and "final_transaction_time m = v_transaction_time (final_locals rs)"
    and "final_total_amount m = float_or_zero (v_total_amount (final_locals rs))"
    and "final_currency m = str_or (v_currency (final_locals rs)) ''USD''"
    and "final_items m = v_all_items (final_locals rs)"
    and "field_sources (metadata m) = v_field_sources (final_locals rs)"
    and "item_sources (metadata m) = v_item_sources (final_locals rs)"
  using assms by (auto simp: merge_results_def final_locals_def Let_def split: if_splits)


lemma rank_results_Cons:
  assumes "vs \<noteq> []"
  obtains b rest where "rank_results vs = b # rest"
proof -
  from assms have "length (rank_results vs) \<noteq> 0"
    by (simp add: rank_results_def)
  then show thesis
    using that by (cases "rank_results vs") simp_all
qed

lemma set_ranked_valid: "set (ranked_valid rs) = set (filter is_valid rs)"
  by (simp add: ranked_valid_def rank_results_def image_image del: set_filter)

lemma final_locals_unfold:
  assumes "rank_results (filter is_valid rs) = b # rest"
  shows "final_locals rs = fold merge_step rest (add_items (result b) (init_locals (result b)))"
    and "ranked_valid rs = map result (b # rest)"
  using assms by (simp_all add: final_locals_def ranked_valid_def Let_def)

lemma final_items_inv:
  assumes "filter is_valid rs \<noteq> []"
  shows "items_inv (candidates (ranked_valid rs)) (final_locals rs)"
proof -
  from assms obtain b rest where "rank_results (filter is_valid rs) = b # rest"
    by (rule rank_results_Cons)
  then show ?thesis
    by (simp only: final_locals_unfold items_inv_locals)
qed

lemma locals_transaction_date:
  "v_transaction_date (fold merge_step rest (add_items (result b) (init_locals (result b)))) =
     (case find (\<lambda>r. truthy_str (transaction_date r)) (map result (b # rest)) of
        Some r \<Rightarrow> transaction_date r | None \<Rightarrow> transaction_date (result b))"
  by (subst fold_first_value [where g = v_transaction_date and t = truthy_str
        and f = "\<lambda>x. transaction_date (result x)"], rule merge_step_transaction_date)
     (simp add: find_map_result split: option.splits)

lemma locals_source_transaction_date:
  "map_of (v_field_sources (fold merge_step rest (add_items (result b) (init_locals (result b)))))
       ''transaction_date'' =
     Some (map_option source (find (\<lambda>r. truthy_str (transaction_date r)) (map result (b # rest))))"
  by (subst fold_first_source [where g = v_transaction_date and t = truthy_str
        and f = "\<lambda>x. transaction_date (result x)" and s = "\<lambda>x. source (result x)"
        and h = "\<lambda>st. map_of (v_field_sources st) ''transaction_date''"],
      rule merge_step_transaction_date, rule merge_step_source_transaction_date)
     (simp add: find_map_result init_locals_field_sources split: option.splits)

lemma locals_transaction_time:
  "v_transaction_time (fold merge_step rest (add_items (result b) (init_locals (result b)))) =
     (case find (\<lambda>r. truthy_str (transaction_time r)) (map result (b # rest)) of
        Some r \<Rightarrow> transaction_time r | None \<Rightarrow> transaction_time (result b))"
  by (subst fold_first_value [where g = v_transaction_time and t = truthy_str
        and f = "\<lambda>x. transaction_time (result x)"], rule merge_step_transaction_time)
     (simp add: find_map_result split: option.splits)

lemma locals_source_transaction_time:
  "map_of (v_field_sources (fold merge_step rest (add_items (result b) (init_locals (result b)))))
       ''transaction_time'' =
     Some (map_option source (find (\<lambda>r. truthy_str (transaction_time r)) (map result (b # rest))))"
  by (subst fold_first_source [where g = v_transaction_time and t = truthy_str
        and f = "\<lambda>x. transaction_time (result x)" and s = "\<lambda>x. source (result x)"
        and h = "\<lambda>st. map_of (v_field_sources st) ''transaction_time''"],
      rule merge_step_transaction_time, rule merge_step_source_transaction_time)
     (simp add: find_map_result init_locals_field_sources split: option.splits)

lemma locals_currency:
  "v_currency (fold merge_step rest (add_items (result b) (init_locals (result b)))) =
     (case find (\<lambda>r. truthy_str (currency r)) (map result (b # rest)) of
        Some r \<Rightarrow> currency r | None \<Rightarrow> currency (result b))"
  by (subst fold_first_value [where g = v_currency and t = truthy_str
        and f = "\<lambda>x. currency (result x)"], rule merge_step_currency)
     (simp add: find_map_result split: option.splits)

lemma locals_source_currency:
  "map_of (v_field_sources (fold merge_step rest (add_items (result b) (init_locals (result b)))))
       ''currency'' =
     Some (map_option source (find (\<lambda>r. truthy_str (currency r)) (map result (b # rest))))"
  by (subst fold_first_source [where g = v_currency and t = truthy_str
        and f = "\<lambda>x. currency (result x)" and s = "\<lambda>x. source (result x)"
        and h = "\<lambda>st. map_of (v_field_sources st) ''currency''"],
      rule merge_step_currency, rule merge_step_source_currency)
     (simp add: find_map_result init_locals_field_sources split: option.splits)


lemma merge_step_keys:
  "map fst (v_field_sources st) = scalar_fields \<Longrightarrow>
     map fst (v_field_sources (merge_step x st)) = scalar_fields"
  by (simp add: merge_step_def Let_def scalar_fields_def)

lemma fold_merge_step_keys:
  "map fst (v_field_sources st) = scalar_fields \<Longrightarrow>
     map fst (v_field_sources (fold merge_step xs st)) = scalar_fields"
  by (induction xs arbitrary: st) (simp_all add: merge_step_keys)

lemma locals_keys:
  "map fst (v_field_sources (fold merge_step rest (add_items (result b) (init_locals (result b)))))
     = scalar_fields"
  by (rule fold_merge_step_keys) (simp add: init_locals_field_sources scalar_fields_def)

lemma has_field_simps:
  "has_field ''merchant_name'' r = truthy_str (merchant_name r)"
  "has_field ''transaction_date'' r = truthy_str (transaction_date r)"
  "has_field ''transaction_time'' r = truthy_str (transaction_time r)"
  "has_field ''total_amount'' r = (total_amount r \<noteq> None)"
  "has_field ''currency'' r = truthy_str (currency r)"
  by (simp_all add: has_field_def)

lemma has_field_other: "f \<notin> set scalar_fields \<Longrightarrow> has_field f r = False"
  by (simp add: has_field_def scalar_fields_def)

lemma final_values:
  assumes "filter is_valid rs \<noteq> []"
  shows "v_merchant_name (final_locals rs) =
           (case find (has_field ''merchant_name'') (ranked_valid rs) of
              Some r \<Rightarrow> merchant_name r | None \<Rightarrow> merchant_name (hd (ranked_valid rs)))"
    and "v_transaction_date (final_locals rs) =
           (case find (has_field ''transaction_date'') (ranked_valid rs) of
              Some r \<Rightarrow> transaction_date r | None \<Rightarrow> transaction_date (hd (ranked_valid rs)))"
    and "v_transaction_time (final_locals rs) =
           (case find (has_field ''transaction_time'') (ranked_valid rs) of
              Some r \<Rightarrow> transaction_time r | None \<Rightarrow> transaction_time (hd (ranked_valid rs)))"
    and "v_total_amount (final_locals rs) =
           (case find (has_field ''total_amount'') (ranked_valid rs) of
              Some r \<Rightarrow> total_amount r | None \<Rightarrow> total_amount (hd (ranked_valid rs)))"
    and "v_currency (final_locals rs) =
           (case find (has_field ''currency'') (ranked_valid rs) of
              Some r \<Rightarrow> currency r | None \<Rightarrow> currency (hd (ranked_valid rs)))"
proof -
  from assms obtain b rest where br: "rank_results (filter is_valid rs) = b # rest"
    by (rule rank_results_Cons)
  have hf: "has_field ''merchant_name'' = (\<lambda>r. truthy_str (merchant_name r))"
    "has_field ''transaction_date'' = (\<lambda>r. truthy_str (transaction_date r))"
    "has_field ''transaction_time'' = (\<lambda>r. truthy_str (transaction_time r))"
    "has_field ''total_amount'' = (\<lambda>r. total_amount r \<noteq> None)"
    "has_field ''currency'' = (\<lambda>r. truthy_str (currency r))"
    by (rule ext, simp only: has_field_simps)+
  show "v_merchant_name (final_locals rs) =
           (case find (has_field ''merchant_name'') (ranked_valid rs) of
              Some r \<Rightarrow> merchant_name r | None \<Rightarrow> merchant_name (hd (ranked_valid rs)))"
    by (simp only: final_locals_unfold [OF br] hf locals_merchant_name) (simp split: option.splits)
  show "v_transaction_date (final_locals rs) =
           (case find (has_field ''transaction_date'') (ranked_valid rs) of
              Some r \<Rightarrow> transaction_date r | None \<Rightarrow> transaction_date (hd (ranked_valid rs)))"
    by (simp only: final_locals_unfold [OF br] hf locals_transaction_date) (simp split: option.splits)
  show "v_transaction_time (final_locals rs) =
           (case find (has_field ''transaction_time'') (ranked_valid rs) of
              Some r \<Rightarrow> transaction_time r | None \<Rightarrow> transaction_time (hd (ranked_valid rs)))"
    by (simp only: final_locals_unfold [OF br] hf locals_transaction_time) (simp split: option.splits)
  show "v_total_amount (final_locals rs) =
           (case find (has_field ''total_amount'') (ranked_valid rs) of
              Some r \<Rightarrow> total_amount r | None \<Rightarrow> total_amount (hd (ranked_valid rs)))"
    by (simp only: final_locals_unfold [OF br] hf locals_total_amount) (simp split: option.splits)
  show "v_currency (final_locals rs) =
           (case find (has_field ''currency'') (ranked_valid rs) of
              Some r \<Rightarrow> currency r | None \<Rightarrow> currency (hd (ranked_valid rs)))"
    by (simp only: final_locals_unfold [OF br] hf locals_currency) (simp split: option.splits)
qed

lemma final_field_sources:
  assumes "filter is_valid rs \<noteq> []"
  shows "map_of (v_field_sources (final_locals rs)) f =
           (if f \<in> set scalar_fields
            then Some (map_option source (find (has_field f) (ranked_valid rs))) else None)"
    and "map fst (v_field_sources (final_locals rs)) = scalar_fields"
proof -
  from assms obtain b rest where br: "rank_results (filter is_valid rs) = b # rest"
    by (rule rank_results_Cons)
  have hf: "has_field ''merchant_name'' = (\<lambda>r. truthy_str (merchant_name r))"
    "has_field ''transaction_date'' = (\<lambda>r. truthy_str (transaction_date r))"
    "has_field ''transaction_time'' = (\<lambda>r. truthy_str (transaction_time r))"
    "has_field ''total_amount'' = (\<lambda>r. total_amount r \<noteq> None)"
    "has_field ''currency'' = (\<lambda>r. truthy_str (currency r))"
    by (rule ext, simp only: has_field_simps)+
  show keys: "map fst (v_field_sources (final_locals rs)) = scalar_fields"
    by (simp only: final_locals_unfold [OF br] locals_keys)
  show "map_of (v_field_sources (final_locals rs)) f =
           (if f \<in> set scalar_fields
            then Some (map_option source (find (has_field f) (ranked_valid rs))) else None)"
  proof (cases "f \<in> set scalar_fields")
    case False
    with keys have "f \<notin> fst ` set (v_field_sources (final_locals rs))"
      by (metis set_map)
    then have "map_of (v_field_sources (final_locals rs)) f = None"
      by (simp add: map_of_eq_None_iff)
    with False show ?thesis by simp
  next
    case True
    then have "f = ''merchant_name'' \<or> f = ''transaction_date'' \<or> f = ''transaction_time''
      \<or> f = ''total_amount'' \<or> f = ''currency''"
      by (simp add: scalar_fields_def)
    then show ?thesis
    proof (elim disjE)
      assume "f = ''merchant_name''"
      with True show ?thesis
        by (simp only: final_locals_unfold [OF br] hf locals_source_merchant_name if_True)
    next
      assume "f = ''transaction_date''"
      with True show ?thesis
        by (simp only: final_locals_unfold [OF br] hf locals_source_transaction_date if_True)
    next
      assume "f = ''transaction_time''"
      with True show ?thesis
        by (simp only: final_locals_unfold [OF br] hf locals_source_transaction_time if_True)
    next
      assume "f = ''total_amount''"
      with True show ?thesis
        by (simp only: final_locals_unfold [OF br] hf locals_source_total_amount if_True)
    next
      assume "f = ''currency''"
      with True show ?thesis
        by (simp only: final_locals_unfold [OF br] hf locals_source_currency if_True)
    qed
  qed
qed

lemma blank_truthy: "truthy_str s = (\<not> blank s)"
  by (cases s) (simp_all add: truthy_str_def blank_def)

lemma find_first:
  "(\<forall>h \<in> set hi. \<not> P h) \<Longrightarrow> P r \<Longrightarrow> find P (hi @ r # lo) = Some r"
  by (induction hi) simp_all

lemma find_None_hd: "find P xs = None \<Longrightarrow> xs \<noteq> [] \<Longrightarrow> \<not> P (hd xs)"
  by (cases xs) (auto split: if_splits)

lemma find_Some_holds: "find P xs = Some x \<Longrightarrow> P x"
  by (induction xs) (auto split: if_splits)

lemma ranked_valid_nonempty: "filter is_valid rs \<noteq> [] \<Longrightarrow> ranked_valid rs \<noteq> []"
  by (metis set_ranked_valid set_empty)

lemma str_or_value: "truthy_str s \<Longrightarrow> Some (str_or s d) = s"
  by (cases s) (simp_all add: truthy_str_def str_or_def)

lemma str_or_default: "\<not> truthy_str s \<Longrightarrow> str_or s d = d"
  by (cases s) (simp_all add: truthy_str_def str_or_def)

lemma float_or_zero_value: "x \<noteq> None \<Longrightarrow> Some (float_or_zero x) = x"
  by (cases x) (simp_all add: float_or_zero_def)

lemma merge_results_found:
  assumes m: "merge_results now rs = Inr m"
  shows "find (has_field ''merchant_name'') (ranked_valid rs) = Some r \<Longrightarrow>
           Some (final_merchant_name m) = merchant_name r"
    and "find (has_field ''transaction_date'') (ranked_valid rs) = Some r \<Longrightarrow>
           Some (final_transaction_date m) = transaction_date r"
    and "find (has_field ''transaction_time'') (ranked_valid rs) = Some r \<Longrightarrow>
           final_transaction_time m = transaction_time r"
    and "find (has_field ''total_amount'') (ranked_valid rs) = Some r \<Longrightarrow>
           Some (final_total_amount m) = total_amount r"
    and "find (has_field ''currency'') (ranked_valid rs) = Some r \<Longrightarrow>
           Some (final_currency m) = currency r"
proof -
  note v = merge_results_Inr [OF m]
  note fv = final_values [OF v(1)]
  show "find (has_field ''merchant_name'') (ranked_valid rs) = Some r \<Longrightarrow>
           Some (final_merchant_name m) = merchant_name r"
    using find_Some_holds [of "has_field ''merchant_name''" "ranked_valid rs" r]
    by (simp add: v(2) fv(1) has_field_simps str_or_value)
  show "find (has_field ''transaction_date'') (ranked_valid rs) = Some r \<Longrightarrow>
           Some (final_transaction_date m) = transaction_date r"
    using find_Some_holds [of "has_field ''transaction_date''" "ranked_valid rs" r]
    by (simp add: v(3) fv(2) has_field_simps str_or_value)
  show "find (has_field ''transaction_time'') (ranked_valid rs) = Some r \<Longrightarrow>
           final_transaction_time m = transaction_time r"
    by (simp add: v(4) fv(3))
  show "Some (final_total_amount m) = total_amount r"
    if f: "find (has_field ''total_amount'') (ranked_valid rs) = Some r"
  proof -
    from find_Some_holds [OF f] have "total_amount r \<noteq> None"
      unfolding has_field_simps .
    then have "Some (float_or_zero (total_amount r)) = total_amount r"
      by (rule float_or_zero_value)
    then show ?thesis
      by (simp only: v(5) fv(4) f option.case)
  qed
  show "find (has_field ''currency'') (ranked_valid rs) = Some r \<Longrightarrow>
           Some (final_currency m) = currency r"
    using find_Some_holds [of "has_field ''currency''" "ranked_valid rs" r]
    by (simp add: v(6) fv(5) has_field_simps str_or_value)
qed

lemma merge_results_not_found:
  assumes m: "merge_results now rs = Inr m"
  shows "find (has_field ''merchant_name'') (ranked_valid rs) = None \<Longrightarrow>
           final_merchant_name m = ''Unknown''"
    and "find (has_field ''transaction_date'') (ranked_valid rs) = None \<Longrightarrow>
           final_transaction_date m = ''Unknown''"
    and "find (has_field ''transaction_time'') (ranked_valid rs) = None \<Longrightarrow>
           blank (final_transaction_time m)"
    and "find (has_field ''total_amount'') (ranked_valid rs) = None \<Longrightarrow>
           final_total_amount m = 0"
    and "find (has_field ''currency'') (ranked_valid rs) = None \<Longrightarrow>
           final_currency m = ''USD''"
proof -
  note v = merge_results_Inr [OF m]
  note fv = final_values [OF v(1)]
  note ne = ranked_valid_nonempty [OF v(1)]
  show "find (has_field ''merchant_name'') (ranked_valid rs) = None \<Longrightarrow>
           final_merchant_name m = ''Unknown''"
    using find_None_hd [of "has_field ''merchant_name''" "ranked_valid rs"] ne
    by (simp add: v(2) fv(1) has_field_simps str_or_default)
  show "find (has_field ''transaction_date'') (ranked_valid rs) = None \<Longrightarrow>
           final_transaction_date m = ''Unknown''"
    using find_None_hd [of "has_field ''transaction_date''" "ranked_valid rs"] ne
    by (simp add: v(3) fv(2) has_field_simps str_or_default)
  show "find (has_field ''transaction_time'') (ranked_valid rs) = None \<Longrightarrow>
           blank (final_transaction_time m)"
    using find_None_hd [of "has_field ''transaction_time''" "ranked_valid rs"] ne
    by (simp add: v(4) fv(3) has_field_simps blank_truthy)
  show "find (has_field ''total_amount'') (ranked_valid rs) = None \<Longrightarrow>
           final_total_amount m = 0"
    using find_None_hd [of "has_field ''total_amount''" "ranked_valid rs"] ne
    by (simp add: v(5) fv(4) has_field_simps float_or_zero_def)
  show "find (has_field ''currency'') (ranked_valid rs) = None \<Longrightarrow>
           final_currency m = ''USD''"
    using find_None_hd [of "has_field ''currency''" "ranked_valid rs"] ne
    by (simp add: v(6) fv(5) has_field_simps str_or_default)
qed

lemma merge_results_field_sources:
  assumes m: "merge_results now rs = Inr m"
  shows "map_of (field_sources (metadata m)) f =
           (if f \<in> set scalar_fields
            then Some (map_option source (find (has_field f) (ranked_valid rs))) else None)"
    and "map fst (field_sources (metadata m)) = scalar_fields"
  using merge_results_Inr [OF m] final_field_sources [of rs] by simp_all

lemma find_first_field:
  assumes "\<forall>h \<in> set hi. \<not> has_field f h" and "has_field f r" and "xs = hi @ r # lo"
  shows "find (has_field f) xs = Some r"
  using assms by (simp add: find_first)

lemma truthy_str_drop_empty [simp]: "truthy_str (drop_empty s) = truthy_str s"
  by (cases s) (simp_all add: truthy_str_def drop_empty_def)

lemma score_result_without_empty_strings:
  "score_result (without_empty_strings r) = (score_result r)\<lparr>result := without_empty_strings r\<rparr>"
  by (simp add: score_result_def without_empty_strings_def Let_def)

lemma find_None_field:
  "(\<forall>x \<in> set (filter is_valid rs). \<not> has_field f x) \<Longrightarrow> find (has_field f) (ranked_valid rs) = None"
  by (simp add: find_None_iff set_ranked_valid del: set_filter)

lemma candidates_append: "candidates (xs @ ys) = candidates xs @ candidates ys"
  by (simp add: candidates_def)

lemma find_map_pair:
  "find (has_key k) (map (\<lambda>i. (i, s)) is) =
     map_option (\<lambda>i. (i, s)) (find (\<lambda>j. truthy_str (description j) \<and> item_key j = k) is)"
  by (induction "is") (simp_all add: has_key_def)

lemma find_candidates_None:
  "(\<forall>h \<in> set hi. \<forall>j \<in> set (items h). truthy_str (description j) \<longrightarrow> item_key j \<noteq> k) \<Longrightarrow>
     find (has_key k) (candidates hi) = None"
  by (auto simp: find_None_iff candidates_def has_key_def)

lemma find_Some_mem: "find P xs = Some x \<Longrightarrow> x \<in> set xs \<and> P x"
  by (induction xs) (auto split: if_splits)

lemma find_exists: "x \<in> set xs \<Longrightarrow> P x \<Longrightarrow> \<exists>y. find P xs = Some y"
  by (cases "find P xs") (auto simp: find_None_iff)

lemma items_inv_first:
  assumes inv: "items_inv cs st" and f: "find (has_key k) cs = Some (i', s)"
  shows "\<exists>n < length (v_all_items st). v_all_items st ! n = i' \<and>
           attr_source (v_item_sources st ! n) = s \<and>
           attr_description (v_item_sources st ! n) = description i'"
proof -
  from inv have len: "length (v_item_sources st) = length (v_all_items st)"
    and seen: "v_seen st = item_key ` set (v_all_items st)"
    and first: "\<forall>p \<in> set (zip (v_all_items st) (v_item_sources st)).
         find (has_key (item_key (fst p))) cs = Some (fst p, attr_source (snd p)) \<and>
         attr_description (snd p) = description (fst p)"
    and all: "\<forall>c \<in> set cs. truthy_str (description (fst c)) \<longrightarrow> item_key (fst c) \<in> v_seen st"
    unfolding items_inv_def by blast+
  from find_Some_mem [OF f] have mem: "(i', s) \<in> set cs" and hk: "has_key k (i', s)"
    by blast+
  from hk have k: "truthy_str (description i')" "item_key i' = k"
    by (simp_all add: has_key_def)
  with all mem have "k \<in> v_seen st" by force
  with seen obtain a where a: "a \<in> set (v_all_items st)" "item_key a = k"
    by auto
  from a(1) obtain n where n: "n < length (v_all_items st)" "v_all_items st ! n = a"
    by (auto simp: in_set_conv_nth)
  with len have "(a, v_item_sources st ! n) \<in> set (zip (v_all_items st) (v_item_sources st))"
    by (auto simp: set_zip)
  with first have "find (has_key (item_key a)) cs = Some (a, attr_source (v_item_sources st ! n))"
    and d: "attr_description (v_item_sources st ! n) = description a"
    by force+
  with a(2) f have "a = i'" "attr_source (v_item_sources st ! n) = s"
    by simp_all
  with n d show ?thesis by blast
qed

lemma items_inv_described:
  assumes inv: "items_inv cs st" and i: "i \<in> set (v_all_items st)"
  shows "truthy_str (description i)"
proof -
  from inv have len: "length (v_item_sources st) = length (v_all_items st)"
    and first: "\<forall>p \<in> set (zip (v_all_items st) (v_item_sources st)).
         find (has_key (item_key (fst p))) cs = Some (fst p, attr_source (snd p)) \<and>
         attr_description (snd p) = description (fst p)"
    unfolding items_inv_def by blast+
  from i obtain n where n: "n < length (v_all_items st)" "v_all_items st ! n = i"
    by (auto simp: in_set_conv_nth)
  with len have "(i, v_item_sources st ! n) \<in> set (zip (v_all_items st) (v_item_sources st))"
    by (auto simp: set_zip)
  with first have "find (has_key (item_key i)) cs = Some (i, attr_source (v_item_sources st ! n))"
    by force
  from find_Some_mem [OF this] show ?thesis
    by (simp add: has_key_def)
qed




section \<open>The ranking\<close>

lemma distinct_map_uminus:
  "distinct (map g xs) \<Longrightarrow> distinct (map (\<lambda>x. - g x :: rat) xs)"
  by (auto simp: distinct_map inj_on_def)

lemma rank_results_permutation:
  assumes perm: "mset vs' = mset vs"
    and dist: "distinct (map (\<lambda>r. score (score_result r)) vs)"
  shows "rank_results vs' = rank_results vs"
proof -
  let ?f = "\<lambda>x. - score x"
  have keys: "map ?f (map score_result xs) = map uminus (map (\<lambda>r. score (score_result r)) xs)" for xs
    by simp
  from perm have "mset (map (\<lambda>r. score (score_result r)) vs') = mset (map (\<lambda>r. score (score_result r)) vs)"
    by (metis mset_map)
  with dist have dist': "distinct (map (\<lambda>r. score (score_result r)) vs')"
    by (metis mset_eq_imp_distinct_iff)
  have d: "distinct (map ?f (rank_results xs))"
    if "distinct (map (\<lambda>r. score (score_result r)) xs)" for xs
  proof -
    from that have "distinct (map (\<lambda>r. - score (score_result r)) xs)"
      by (rule distinct_map_uminus)
    then have "distinct (map ?f (map score_result xs))"
      by (simp add: comp_def)
    then show ?thesis
      unfolding rank_results_def by (simp only: distinct_map distinct_sort set_sort)
  qed
  have s: "sorted (map ?f (rank_results xs))" for xs
    by (simp add: rank_results_def)
  have "set vs' = set vs"
    using perm by (rule mset_eq_setD)
  then have sets: "set (rank_results vs') = set (rank_results vs)"
    by (simp add: rank_results_def)
  then have "set (map ?f (rank_results vs')) = set (map ?f (rank_results vs))"
    by simp
  with s d [OF dist] d [OF dist'] have "map ?f (rank_results vs') = map ?f (rank_results vs)"
    by (intro sorted_distinct_set_unique)
  moreover from d [OF dist] d [OF dist'] sets have "inj_on ?f (set (rank_results vs') \<union> set (rank_results vs))"
    by (simp add: distinct_map)
  ultimately show ?thesis
    by (simp add: inj_on_map_eq_map)
qed

lemma rank_results_sorted:
  "sorted_wrt (\<lambda>a b. score a \<ge> score b) (rank_results vs)"
proof -
  have "sorted (map (\<lambda>x. - score x) (rank_results vs))"
    by (simp add: rank_results_def)
  then show ?thesis
    by (simp add: sorted_map sorted_wrt_iff_nth_less)
qed

lemma rank_results_stable:
  "filter (\<lambda>x. score x = k) (rank_results vs) = filter (\<lambda>x. score x = k) (map score_result vs)"
  using sort_key_stable [of "\<lambda>x. - score x" "- k" "map score_result vs"]
  by (simp add: rank_results_def)

lemma rank_results_tie_order:
  assumes perm: "mset vs' = mset vs"
    and ties: "\<forall>k. filter (\<lambda>r. score (score_result r) = k) vs' =
                   filter (\<lambda>r. score (score_result r) = k) vs"
  shows "rank_results vs' = rank_results vs"
proof -
  let ?f = "\<lambda>x. - score x"
  have "sort_key ?f (map score_result vs') = rank_results vs"
  proof (rule properties_for_sort_key)
    show "mset (rank_results vs) = mset (map score_result vs')"
      using perm by (simp add: rank_results_def)
    show "sorted (map ?f (rank_results vs))"
      by (simp add: rank_results_def)
    show "filter (\<lambda>x. ?f k = ?f x) (rank_results vs) =
            filter (\<lambda>x. ?f k = ?f x) (map score_result vs')" for k
    proof -
      have "filter (\<lambda>x. ?f k = ?f x) (rank_results vs) =
              filter (\<lambda>x. score x = score k) (rank_results vs)"
        by (rule filter_cong) auto
      also have "\<dots> = filter (\<lambda>x. score x = score k) (map score_result vs)"
        by (rule rank_results_stable)
      also have "\<dots> = map score_result (filter (\<lambda>r. score (score_result r) = score k) vs)"
        by (simp add: filter_map comp_def)
      also have "\<dots> = map score_result (filter (\<lambda>r. score (score_result r) = score k) vs')"
        using ties by simp
      also have "\<dots> = filter (\<lambda>x. score x = score k) (map score_result vs')"
        by (simp add: filter_map comp_def)
      also have "\<dots> = filter (\<lambda>x. ?f k = ?f x) (map score_result vs')"
        by (rule filter_cong) auto
      finally show ?thesis .
    qed
  qed
  then show ?thesis
    by (simp add: rank_results_def)
qed

lemma tie_broken_by_arrival_order:
  "score (score_result ex_tie_a) = score (score_result ex_tie_b) \<and>
   final_merchant_name (projr (merge_results ''t'' [ex_tie_a, ex_tie_b])) = ''Shop A'' \<and>
   final_merchant_name (projr (merge_results ''t'' [ex_tie_b, ex_tie_a])) = ''Shop B''"
  by code_simp

section \<open>Scoring\<close>

lemma truthy_str_present: "truthy_str s = present s"
  by (cases s) (simp_all add: truthy_str_def present_def)

lemma score_result_completeness:
  "completeness (score_result r) = spec_normalized_completeness r"
  by (simp add: score_result_def spec_normalized_completeness_def
      spec_weights_def truthy_str_present Let_def)

lemma score_result_confidence: "confidence (score_result r) = spec_confidence r"
  by (simp add: score_result_def spec_confidence_def Let_def split: prod.splits)

lemma score_result_score:
  "score (score_result r) =
     completeness (score_result r) * (7 / 10) + confidence (score_result r) * (3 / 10)
       + of_int (source_priority (source r)) * (1 / 100)"
  by (simp add: score_result_def Let_def split: prod.splits)

lemma score_examples:
  "score (score_result ex_doc) = 17 / 10 \<and> score (score_result ex_ocr) = 32 / 25 \<and>
   score (score_result ex_failed) = 4 / 25"
  by code_simp

text \<open>
  Claim C2. The score of a result is 0.7 times its normalized completeness plus 0.3 times
  its confidence plus 0.01 times the priority of its source. The normalized completeness
  is the sum of the weights of the present fields (merchant name 2, date 2, total amount
  3 with a total of 0 counted as present, currency 1, a non-empty item list
  min(0.5 times its length, 5), time 1) divided by the number of present fields, and 0
  when no field is present; the confidence is the confidence score of the result, and
  0.5 when it has none.
\<close>

theorem score_result_formula:
  "score (score_result r) = spec_score r \<and>
   completeness (score_result r) = spec_normalized_completeness r \<and>
   confidence (score_result r) = spec_confidence r"
  by (simp add: score_result_score score_result_completeness score_result_confidence
      spec_score_def)

section \<open>Error results and the empty case\<close>

text \<open>
  Claim C5. A result whose raw response has the key "error" is removed before the
  scoring: the merge of a list that contains it is the merge of the list without it, in
  every component of the output (the sources used, the field and item attribution, the
  ranked scores), and the merge only ever sees the valid results.
\<close>

theorem errors_excluded:
  "\<not> is_valid e \<Longrightarrow>
     merge_results now (xs @ e # ys) = merge_results now (xs @ ys) \<and>
     merge_results now (xs @ e # ys) = merge_results now (filter is_valid (xs @ e # ys))"
  by (simp add: merge_results_def)

theorem errors_excluded_witness:
  "\<not> is_valid ex_failed \<and>
   merge_results ''t'' ([ex_doc] @ ex_failed # [ex_ocr]) = merge_results ''t'' ([ex_doc] @ [ex_ocr])"
proof -
  have h: "\<not> is_valid ex_failed"
    by (simp add: is_valid_def ex_failed_def)
  from errors_excluded [OF h, of "''t''" "[ex_doc]" "[ex_ocr]"] h show ?thesis
    by blast
qed

text \<open>
  Claim C6. When every result of the list carries the error key, and when the list is
  empty, the merge yields the no-valid-results outcome and no final record.
\<close>

theorem no_valid_results:
  "(\<forall>r \<in> set rs. \<not> is_valid r) \<Longrightarrow> merge_results now rs = Inl NoValidResults"
  by (simp add: merge_results_def filter_empty_conv)

theorem no_valid_results_witness:
  "\<not> is_valid ex_failed \<and>
   merge_results ''t'' [ex_failed, ex_failed] = Inl NoValidResults \<and>
   merge_results ''t'' [] = Inl NoValidResults"
proof -
  have h: "\<forall>r \<in> set [ex_failed, ex_failed]. \<not> is_valid r"
    by (simp add: is_valid_def ex_failed_def)
  have e: "\<forall>r \<in> set ([] :: ReceiptExtractionResult list). \<not> is_valid r"
    by simp
  from no_valid_results [OF h, of "''t''"] no_valid_results [OF e, of "''t''"] h
  show ?thesis by simp
qed

section \<open>Order of arrival\<close>

text \<open>
  Claim C3. The ranking is the stable descending sort by score: for every list of valid
  results the ranked list is descending in the score, and the results of any one score
  appear in it in their order of arrival. For two lists that are permutations of each
  other the merge gives the same outcome (no record for either, or two records with the
  same merchant name, date, time, total amount, currency and items, and the same
  metadata) whenever the valid results have pairwise different scores, and also with
  equal scores whenever the results of each score arrive in the same order in both
  lists. So only the order of arrival of results with equal scores can change the output.
\<close>

theorem merge_order_independent:
  "(mset rs' = mset rs \<longrightarrow>
      (distinct (map (\<lambda>r. score (score_result r)) (filter is_valid rs)) \<or>
       (\<forall>k. filter (\<lambda>r. score (score_result r) = k) (filter is_valid rs') =
            filter (\<lambda>r. score (score_result r) = k) (filter is_valid rs))) \<longrightarrow>
      ((merge_results now rs = Inl NoValidResults \<and> merge_results now rs' = Inl NoValidResults) \<or>
       (\<exists>m m'. merge_results now rs = Inr m \<and> merge_results now rs' = Inr m' \<and>
          final_merchant_name m' = final_merchant_name m \<and>
          final_transaction_date m' = final_transaction_date m \<and>
          final_transaction_time m' = final_transaction_time m \<and>
          final_total_amount m' = final_total_amount m \<and>
          final_currency m' = final_currency m \<and>
          final_items m' = final_items m \<and>
          metadata m' = metadata m))) \<and>
   sorted_wrt (\<lambda>a b. score a \<ge> score b) (rank_results vs) \<and>
   (\<forall>k. filter (\<lambda>x. score x = k) (rank_results vs) =
        filter (\<lambda>x. score x = k) (map score_result vs))"
proof -
  have "(merge_results now rs = Inl NoValidResults \<and> merge_results now rs' = Inl NoValidResults) \<or>
       (\<exists>m m'. merge_results now rs = Inr m \<and> merge_results now rs' = Inr m' \<and>
          final_merchant_name m' = final_merchant_name m \<and>
          final_transaction_date m' = final_transaction_date m \<and>
          final_transaction_time m' = final_transaction_time m \<and>
          final_total_amount m' = final_total_amount m \<and>
          final_currency m' = final_currency m \<and>
          final_items m' = final_items m \<and>
          metadata m' = metadata m)"
    if perm: "mset rs' = mset rs"
      and order: "distinct (map (\<lambda>r. score (score_result r)) (filter is_valid rs)) \<or>
       (\<forall>k. filter (\<lambda>r. score (score_result r) = k) (filter is_valid rs') =
            filter (\<lambda>r. score (score_result r) = k) (filter is_valid rs))"
  proof -
    from perm have v: "mset (filter is_valid rs') = mset (filter is_valid rs)"
      by simp
    from order have rk: "rank_results (filter is_valid rs') = rank_results (filter is_valid rs)"
    proof
      assume "distinct (map (\<lambda>r. score (score_result r)) (filter is_valid rs))"
      with v show ?thesis by (rule rank_results_permutation)
    next
      assume "\<forall>k. filter (\<lambda>r. score (score_result r) = k) (filter is_valid rs') =
            filter (\<lambda>r. score (score_result r) = k) (filter is_valid rs)"
      with v show ?thesis by (rule rank_results_tie_order)
    qed
    have e: "(filter is_valid rs' = []) = (filter is_valid rs = [])"
      using v by (metis mset_zero_iff)
    show ?thesis
    proof (cases "filter is_valid rs = []")
      case True
      with e show ?thesis
        by (simp add: merge_results_def)
    next
      case False
      with e rk show ?thesis
        by (simp add: merge_results_def Let_def)
    qed
  qed
  with rank_results_sorted [of vs] rank_results_stable [of _ vs] show ?thesis
    by blast
qed

theorem merge_order_independent_witness:
  "mset [ex_tie_top, ex_tie_a, ex_tie_b] = mset [ex_tie_a, ex_tie_top, ex_tie_b] \<and>
   score (score_result ex_tie_a) = score (score_result ex_tie_b) \<and>
   (\<forall>k. filter (\<lambda>r. score (score_result r) = k) (filter is_valid [ex_tie_top, ex_tie_a, ex_tie_b]) =
        filter (\<lambda>r. score (score_result r) = k) (filter is_valid [ex_tie_a, ex_tie_top, ex_tie_b])) \<and>
   merge_results ''t'' [ex_tie_a, ex_tie_top, ex_tie_b] \<noteq> Inl NoValidResults \<and>
   ((merge_results ''t'' [ex_tie_a, ex_tie_top, ex_tie_b] = Inl NoValidResults \<and>
     merge_results ''t'' [ex_tie_top, ex_tie_a, ex_tie_b] = Inl NoValidResults) \<or>
    (\<exists>m m'. merge_results ''t'' [ex_tie_a, ex_tie_top, ex_tie_b] = Inr m \<and>
       merge_results ''t'' [ex_tie_top, ex_tie_a, ex_tie_b] = Inr m' \<and>
       final_merchant_name m' = final_merchant_name m \<and>
       final_transaction_date m' = final_transaction_date m \<and>
       final_transaction_time m' = final_transaction_time m \<and>
       final_total_amount m' = final_total_amount m \<and>
       final_currency m' = final_currency m \<and>
       final_items m' = final_items m \<and>
       metadata m' = metadata m)) \<and>
   rank_results [ex_tie_a, ex_tie_b] = [score_result ex_tie_a, score_result ex_tie_b] \<and>
   rank_results [ex_tie_b, ex_tie_a] = [score_result ex_tie_b, score_result ex_tie_a] \<and>
   final_merchant_name (projr (merge_results ''t'' [ex_tie_a, ex_tie_b])) = ''Shop A'' \<and>
   final_merchant_name (projr (merge_results ''t'' [ex_tie_b, ex_tie_a])) = ''Shop B'' \<and>
   mset [ex_ocr, ex_doc] = mset [ex_doc, ex_ocr] \<and>
   distinct (map (\<lambda>r. score (score_result r)) (filter is_valid [ex_doc, ex_ocr])) \<and>
   merge_results ''t'' [ex_doc, ex_ocr] \<noteq> Inl NoValidResults \<and>
   ((merge_results ''t'' [ex_doc, ex_ocr] = Inl NoValidResults \<and>
     merge_results ''t'' [ex_ocr, ex_doc] = Inl NoValidResults) \<or>
    (\<exists>m m'. merge_results ''t'' [ex_doc, ex_ocr] = Inr m \<and>
       merge_results ''t'' [ex_ocr, ex_doc] = Inr m' \<and>
       final_merchant_name m' = final_merchant_name m \<and>
       final_transaction_date m' = final_transaction_date m \<and>
       final_transaction_time m' = final_transaction_time m \<and>
       final_total_amount m' = final_total_amount m \<and>
       final_currency m' = final_currency m \<and>
       final_items m' = final_items m \<and>
       metadata m' = metadata m))"
proof -
  have p: "mset [ex_tie_top, ex_tie_a, ex_tie_b] = mset [ex_tie_a, ex_tie_top, ex_tie_b]"
    by simp
  have s: "score (score_result ex_tie_a) = 157 / 100" "score (score_result ex_tie_b) = 157 / 100"
    "score (score_result ex_tie_top) = 17 / 10"
    by code_simp+
  have v: "is_valid ex_tie_a" "is_valid ex_tie_b" "is_valid ex_tie_top"
    by code_simp+
  have o: "\<forall>k. filter (\<lambda>r. score (score_result r) = k) (filter is_valid [ex_tie_top, ex_tie_a, ex_tie_b]) =
        filter (\<lambda>r. score (score_result r) = k) (filter is_valid [ex_tie_a, ex_tie_top, ex_tie_b])"
    by (simp add: s v)
  have n: "merge_results ''t'' [ex_tie_a, ex_tie_top, ex_tie_b] \<noteq> Inl NoValidResults"
    by code_simp
  note t = merge_order_independent [where rs = "[ex_tie_a, ex_tie_top, ex_tie_b]"
      and rs' = "[ex_tie_top, ex_tie_a, ex_tie_b]" and now = "''t''"]
  from t [of "[]"] p o
  have same: "(merge_results ''t'' [ex_tie_a, ex_tie_top, ex_tie_b] = Inl NoValidResults \<and>
     merge_results ''t'' [ex_tie_top, ex_tie_a, ex_tie_b] = Inl NoValidResults) \<or>
    (\<exists>m m'. merge_results ''t'' [ex_tie_a, ex_tie_top, ex_tie_b] = Inr m \<and>
       merge_results ''t'' [ex_tie_top, ex_tie_a, ex_tie_b] = Inr m' \<and>
       final_merchant_name m' = final_merchant_name m \<and>
       final_transaction_date m' = final_transaction_date m \<and>
       final_transaction_time m' = final_transaction_time m \<and>
       final_total_amount m' = final_total_amount m \<and>
       final_currency m' = final_currency m \<and>
       final_items m' = final_items m \<and>
       metadata m' = metadata m)"
    by blast
  from s have eq: "score (score_result ex_tie_b) = score (score_result ex_tie_a)"
    by simp
  have all: "filter (\<lambda>x. score x = score (score_result ex_tie_a)) (rank_results vs) = rank_results vs"
    if "set vs \<subseteq> {ex_tie_a, ex_tie_b}" for vs
    using that by (intro filter_True) (auto simp: rank_results_def eq)
  have ab: "rank_results [ex_tie_a, ex_tie_b] = [score_result ex_tie_a, score_result ex_tie_b]"
  proof -
    have "rank_results [ex_tie_a, ex_tie_b] =
        filter (\<lambda>x. score x = score (score_result ex_tie_a)) (rank_results [ex_tie_a, ex_tie_b])"
      by (rule all [symmetric]) simp
    also from t [of "[ex_tie_a, ex_tie_b]"]
    have "\<dots> = filter (\<lambda>x. score x = score (score_result ex_tie_a))
        (map score_result [ex_tie_a, ex_tie_b])"
      by blast
    also have "\<dots> = [score_result ex_tie_a, score_result ex_tie_b]"
      by (simp add: eq)
    finally show ?thesis .
  qed
  have ba: "rank_results [ex_tie_b, ex_tie_a] = [score_result ex_tie_b, score_result ex_tie_a]"
  proof -
    have "rank_results [ex_tie_b, ex_tie_a] =
        filter (\<lambda>x. score x = score (score_result ex_tie_a)) (rank_results [ex_tie_b, ex_tie_a])"
      by (rule all [symmetric]) simp
    also from t [of "[ex_tie_b, ex_tie_a]"]
    have "\<dots> = filter (\<lambda>x. score x = score (score_result ex_tie_a))
        (map score_result [ex_tie_b, ex_tie_a])"
      by blast
    also have "\<dots> = [score_result ex_tie_b, score_result ex_tie_a]"
      by (simp add: eq)
    finally show ?thesis .
  qed
  have out: "final_merchant_name (projr (merge_results ''t'' [ex_tie_a, ex_tie_b])) = ''Shop A''"
    "final_merchant_name (projr (merge_results ''t'' [ex_tie_b, ex_tie_a])) = ''Shop B''"
    by code_simp+
  have p2: "mset [ex_ocr, ex_doc] = mset [ex_doc, ex_ocr]"
    by simp
  have d2: "distinct (map (\<lambda>r. score (score_result r)) (filter is_valid [ex_doc, ex_ocr]))"
    by code_simp
  have n2: "merge_results ''t'' [ex_doc, ex_ocr] \<noteq> Inl NoValidResults"
    by code_simp
  from merge_order_independent [where rs = "[ex_doc, ex_ocr]" and rs' = "[ex_ocr, ex_doc]"
      and now = "''t''" and vs = "[]"] p2 d2
  have same2: "(merge_results ''t'' [ex_doc, ex_ocr] = Inl NoValidResults \<and>
     merge_results ''t'' [ex_ocr, ex_doc] = Inl NoValidResults) \<or>
    (\<exists>m m'. merge_results ''t'' [ex_doc, ex_ocr] = Inr m \<and>
       merge_results ''t'' [ex_ocr, ex_doc] = Inr m' \<and>
       final_merchant_name m' = final_merchant_name m \<and>
       final_transaction_date m' = final_transaction_date m \<and>
       final_transaction_time m' = final_transaction_time m \<and>
       final_total_amount m' = final_total_amount m \<and>
       final_currency m' = final_currency m \<and>
       final_items m' = final_items m \<and>
       metadata m' = metadata m)"
    by blast
  from s have s': "score (score_result ex_tie_a) = score (score_result ex_tie_b)"
    by simp
  from p s' o n same ab ba out p2 d2 n2 same2 show ?thesis
    by (intro conjI)
qed

section \<open>Gap filling of the scalar fields\<close>

text \<open>
  Claim C1. Walking the valid results in descending score order, the first result that
  has a scalar field (merchant name, date, time, total amount, currency) sets its value
  and its attribution in the field sources, and no result ranked below it changes either,
  whatever value it carries. With no result ranked above, this is the base result: a field
  set from the base is never overwritten. A lower-ranked result is the one used for a
  field only when every result ranked above it left the field unset.
\<close>

theorem no_overwrite:
  assumes "merge_results now rs = Inr m" and "ranked_valid rs = hi @ r # lo"
  shows
    "((\<forall>h \<in> set hi. blank (merchant_name h)) \<longrightarrow> merchant_name r = Some v1 \<longrightarrow> v1 \<noteq> [] \<longrightarrow>
        final_merchant_name m = v1 \<and>
        map_of (field_sources (metadata m)) ''merchant_name'' = Some (Some (source r))) \<and>
     ((\<forall>h \<in> set hi. blank (transaction_date h)) \<longrightarrow> transaction_date r = Some v2 \<longrightarrow> v2 \<noteq> [] \<longrightarrow>
        final_transaction_date m = v2 \<and>
        map_of (field_sources (metadata m)) ''transaction_date'' = Some (Some (source r))) \<and>
     ((\<forall>h \<in> set hi. blank (transaction_time h)) \<longrightarrow> transaction_time r = Some v3 \<longrightarrow> v3 \<noteq> [] \<longrightarrow>
        final_transaction_time m = Some v3 \<and>
        map_of (field_sources (metadata m)) ''transaction_time'' = Some (Some (source r))) \<and>
     ((\<forall>h \<in> set hi. total_amount h = None) \<longrightarrow> total_amount r = Some v4 \<longrightarrow>
        final_total_amount m = v4 \<and>
        map_of (field_sources (metadata m)) ''total_amount'' = Some (Some (source r))) \<and>
     ((\<forall>h \<in> set hi. blank (currency h)) \<longrightarrow> currency r = Some v5 \<longrightarrow> v5 \<noteq> [] \<longrightarrow>
        final_currency m = v5 \<and>
        map_of (field_sources (metadata m)) ''currency'' = Some (Some (source r)))"
proof -
  note found = merge_results_found [OF assms(1)]
  note srcs = merge_results_field_sources(1) [OF assms(1)]
  have f1: "final_merchant_name m = v1 \<and>
        map_of (field_sources (metadata m)) ''merchant_name'' = Some (Some (source r))"
    if "\<forall>h \<in> set hi. blank (merchant_name h)" "merchant_name r = Some v1" "v1 \<noteq> []"
  proof -
    from that have "find (has_field ''merchant_name'') (ranked_valid rs) = Some r"
      by (intro find_first_field [OF _ _ assms(2)])
         (simp_all add: has_field_simps blank_truthy blank_def)
    with found(1) [of r] srcs [of "''merchant_name''"] that show ?thesis
      by (simp add: scalar_fields_def)
  qed
  have f2: "final_transaction_date m = v2 \<and>
        map_of (field_sources (metadata m)) ''transaction_date'' = Some (Some (source r))"
    if "\<forall>h \<in> set hi. blank (transaction_date h)" "transaction_date r = Some v2" "v2 \<noteq> []"
  proof -
    from that have "find (has_field ''transaction_date'') (ranked_valid rs) = Some r"
      by (intro find_first_field [OF _ _ assms(2)])
         (simp_all add: has_field_simps blank_truthy blank_def)
    with found(2) [of r] srcs [of "''transaction_date''"] that show ?thesis
      by (simp add: scalar_fields_def)
  qed
  have f3: "final_transaction_time m = Some v3 \<and>
        map_of (field_sources (metadata m)) ''transaction_time'' = Some (Some (source r))"
    if "\<forall>h \<in> set hi. blank (transaction_time h)" "transaction_time r = Some v3" "v3 \<noteq> []"
  proof -
    from that have "find (has_field ''transaction_time'') (ranked_valid rs) = Some r"
      by (intro find_first_field [OF _ _ assms(2)])
         (simp_all add: has_field_simps blank_truthy blank_def)
    with found(3) [of r] srcs [of "''transaction_time''"] that show ?thesis
      by (simp add: scalar_fields_def)
  qed
  have f4: "final_total_amount m = v4 \<and>
        map_of (field_sources (metadata m)) ''total_amount'' = Some (Some (source r))"
    if "\<forall>h \<in> set hi. total_amount h = None" "total_amount r = Some v4"
  proof -
    from that have "find (has_field ''total_amount'') (ranked_valid rs) = Some r"
      by (intro find_first_field [OF _ _ assms(2)])
         (simp_all add: has_field_simps)
    with found(4) [of r] srcs [of "''total_amount''"] that show ?thesis
      by (simp add: scalar_fields_def)
  qed
  have f5: "final_currency m = v5 \<and>
        map_of (field_sources (metadata m)) ''currency'' = Some (Some (source r))"
    if "\<forall>h \<in> set hi. blank (currency h)" "currency r = Some v5" "v5 \<noteq> []"
  proof -
    from that have "find (has_field ''currency'') (ranked_valid rs) = Some r"
      by (intro find_first_field [OF _ _ assms(2)])
         (simp_all add: has_field_simps blank_truthy blank_def)
    with found(5) [of r] srcs [of "''currency''"] that show ?thesis
      by (simp add: scalar_fields_def)
  qed
  from f1 f2 f3 f4 f5 show ?thesis by blast
qed

theorem no_overwrite_witness:
  "merge_results ''t'' [ex_ocr_named, ex_doc] = Inr (projr (merge_results ''t'' [ex_ocr_named, ex_doc])) \<and>
   ranked_valid [ex_ocr_named, ex_doc] = [] @ ex_doc # [ex_ocr_named] \<and>
   merchant_name ex_doc = Some ''Cafe X'' \<and>
   merchant_name ex_ocr_named = Some ''CAFE Y'' \<and>
   final_merchant_name (projr (merge_results ''t'' [ex_ocr_named, ex_doc])) = ''Cafe X'' \<and>
   map_of (field_sources (metadata (projr (merge_results ''t'' [ex_ocr_named, ex_doc]))))
     ''merchant_name'' = Some (Some (source ex_doc))"
proof -
  have m: "merge_results ''t'' [ex_ocr_named, ex_doc] =
      Inr (projr (merge_results ''t'' [ex_ocr_named, ex_doc]))"
    by code_simp
  have rk: "ranked_valid [ex_ocr_named, ex_doc] = [] @ ex_doc # [ex_ocr_named]"
    by code_simp
  have v: "merchant_name ex_doc = Some ''Cafe X''" "merchant_name ex_ocr_named = Some ''CAFE Y''"
    by (simp_all add: ex_doc_def ex_ocr_named_def)
  have e: "\<forall>h \<in> set ([] :: ReceiptExtractionResult list). blank (merchant_name h)"
    by simp
  from no_overwrite [OF m rk, where ?v1.0 = "''Cafe X''"] e v(1)
  have "final_merchant_name (projr (merge_results ''t'' [ex_ocr_named, ex_doc])) = ''Cafe X'' \<and>
     map_of (field_sources (metadata (projr (merge_results ''t'' [ex_ocr_named, ex_doc]))))
       ''merchant_name'' = Some (Some (source ex_doc))"
    by blast
  with m rk v show ?thesis by blast
qed

text \<open>
  Claim C10. An empty string behaves as an absent value: replacing the empty strings of a
  result by absent values changes neither its completeness nor its score; a result whose
  field is empty or absent does not set the field and gets no attribution, also when it
  is the base, and the first lower-ranked result with a non-empty value is adopted and
  attributed; when every valid result has the field empty or absent the attribution is
  null and the output carries the default ("Unknown" for the merchant name and the date,
  "USD" for the currency; the time has no default and stays empty or absent).
\<close>

theorem empty_string_absent:
  assumes "merge_results now rs = Inr m" and "ranked_valid rs = hi @ r # lo"
  shows
    "completeness (score_result x) = completeness (score_result (without_empty_strings x)) \<and>
     score (score_result x) = score (score_result (without_empty_strings x)) \<and>
     ((\<forall>h \<in> set hi. blank (merchant_name h)) \<longrightarrow> \<not> blank (merchant_name r) \<longrightarrow>
        Some (final_merchant_name m) = merchant_name r \<and>
        map_of (field_sources (metadata m)) ''merchant_name'' = Some (Some (source r))) \<and>
     ((\<forall>h \<in> set hi. blank (transaction_date h)) \<longrightarrow> \<not> blank (transaction_date r) \<longrightarrow>
        Some (final_transaction_date m) = transaction_date r \<and>
        map_of (field_sources (metadata m)) ''transaction_date'' = Some (Some (source r))) \<and>
     ((\<forall>h \<in> set hi. blank (transaction_time h)) \<longrightarrow> \<not> blank (transaction_time r) \<longrightarrow>
        final_transaction_time m = transaction_time r \<and>
        map_of (field_sources (metadata m)) ''transaction_time'' = Some (Some (source r))) \<and>
     ((\<forall>h \<in> set hi. blank (currency h)) \<longrightarrow> \<not> blank (currency r) \<longrightarrow>
        Some (final_currency m) = currency r \<and>
        map_of (field_sources (metadata m)) ''currency'' = Some (Some (source r))) \<and>
     ((\<forall>v \<in> set (filter is_valid rs). blank (merchant_name v)) \<longrightarrow>
        final_merchant_name m = ''Unknown'' \<and>
        map_of (field_sources (metadata m)) ''merchant_name'' = Some None) \<and>
     ((\<forall>v \<in> set (filter is_valid rs). blank (transaction_date v)) \<longrightarrow>
        final_transaction_date m = ''Unknown'' \<and>
        map_of (field_sources (metadata m)) ''transaction_date'' = Some None) \<and>
     ((\<forall>v \<in> set (filter is_valid rs). blank (transaction_time v)) \<longrightarrow>
        blank (final_transaction_time m) \<and>
        map_of (field_sources (metadata m)) ''transaction_time'' = Some None) \<and>
     ((\<forall>v \<in> set (filter is_valid rs). blank (currency v)) \<longrightarrow>
        final_currency m = ''USD'' \<and>
        map_of (field_sources (metadata m)) ''currency'' = Some None)"
proof -
  note found = merge_results_found [OF assms(1)]
  note missing = merge_results_not_found [OF assms(1)]
  note srcs = merge_results_field_sources(1) [OF assms(1)]
  have s: "completeness (score_result x) = completeness (score_result (without_empty_strings x))"
    "score (score_result x) = score (score_result (without_empty_strings x))"
    by (simp_all add: score_result_without_empty_strings)
  have g1: "Some (final_merchant_name m) = merchant_name r \<and>
        map_of (field_sources (metadata m)) ''merchant_name'' = Some (Some (source r))"
    if "\<forall>h \<in> set hi. blank (merchant_name h)" "\<not> blank (merchant_name r)"
  proof -
    from that have "find (has_field ''merchant_name'') (ranked_valid rs) = Some r"
      by (intro find_first_field [OF _ _ assms(2)]) (simp_all add: has_field_simps blank_truthy)
    with found(1) [of r] srcs [of "''merchant_name''"] show ?thesis
      by (simp add: scalar_fields_def)
  qed
  have g2: "Some (final_transaction_date m) = transaction_date r \<and>
        map_of (field_sources (metadata m)) ''transaction_date'' = Some (Some (source r))"
    if "\<forall>h \<in> set hi. blank (transaction_date h)" "\<not> blank (transaction_date r)"
  proof -
    from that have "find (has_field ''transaction_date'') (ranked_valid rs) = Some r"
      by (intro find_first_field [OF _ _ assms(2)]) (simp_all add: has_field_simps blank_truthy)
    with found(2) [of r] srcs [of "''transaction_date''"] show ?thesis
      by (simp add: scalar_fields_def)
  qed
  have g3: "final_transaction_time m = transaction_time r \<and>
        map_of (field_sources (metadata m)) ''transaction_time'' = Some (Some (source r))"
    if "\<forall>h \<in> set hi. blank (transaction_time h)" "\<not> blank (transaction_time r)"
  proof -
    from that have "find (has_field ''transaction_time'') (ranked_valid rs) = Some r"
      by (intro find_first_field [OF _ _ assms(2)]) (simp_all add: has_field_simps blank_truthy)
    with found(3) [of r] srcs [of "''transaction_time''"] show ?thesis
      by (simp add: scalar_fields_def)
  qed
  have g4: "Some (final_currency m) = currency r \<and>
        map_of (field_sources (metadata m)) ''currency'' = Some (Some (source r))"
    if "\<forall>h \<in> set hi. blank (currency h)" "\<not> blank (currency r)"
  proof -
    from that have "find (has_field ''currency'') (ranked_valid rs) = Some r"
      by (intro find_first_field [OF _ _ assms(2)]) (simp_all add: has_field_simps blank_truthy)
    with found(5) [of r] srcs [of "''currency''"] show ?thesis
      by (simp add: scalar_fields_def)
  qed
  have d1: "final_merchant_name m = ''Unknown'' \<and>
        map_of (field_sources (metadata m)) ''merchant_name'' = Some None"
    if "\<forall>v \<in> set (filter is_valid rs). blank (merchant_name v)"
  proof -
    from that have "find (has_field ''merchant_name'') (ranked_valid rs) = None"
      by (intro find_None_field) (simp add: has_field_simps blank_truthy)
    with missing(1) srcs [of "''merchant_name''"] show ?thesis
      by (simp add: scalar_fields_def)
  qed
  have d2: "final_transaction_date m = ''Unknown'' \<and>
        map_of (field_sources (metadata m)) ''transaction_date'' = Some None"
    if "\<forall>v \<in> set (filter is_valid rs). blank (transaction_date v)"
  proof -
    from that have "find (has_field ''transaction_date'') (ranked_valid rs) = None"
      by (intro find_None_field) (simp add: has_field_simps blank_truthy)
    with missing(2) srcs [of "''transaction_date''"] show ?thesis
      by (simp add: scalar_fields_def)
  qed
  have d3: "blank (final_transaction_time m) \<and>
        map_of (field_sources (metadata m)) ''transaction_time'' = Some None"
    if "\<forall>v \<in> set (filter is_valid rs). blank (transaction_time v)"
  proof -
    from that have "find (has_field ''transaction_time'') (ranked_valid rs) = None"
      by (intro find_None_field) (simp add: has_field_simps blank_truthy)
    with missing(3) srcs [of "''transaction_time''"] show ?thesis
      by (simp add: scalar_fields_def)
  qed
  have d4: "final_currency m = ''USD'' \<and>
        map_of (field_sources (metadata m)) ''currency'' = Some None"
    if "\<forall>v \<in> set (filter is_valid rs). blank (currency v)"
  proof -
    from that have "find (has_field ''currency'') (ranked_valid rs) = None"
      by (intro find_None_field) (simp add: has_field_simps blank_truthy)
    with missing(5) srcs [of "''currency''"] show ?thesis
      by (simp add: scalar_fields_def)
  qed
  from s g1 g2 g3 g4 d1 d2 d3 d4 show ?thesis by blast
qed

theorem empty_string_absent_witness:
  "merge_results ''t'' [ex_doc_blank, ex_ocr] = Inr (projr (merge_results ''t'' [ex_doc_blank, ex_ocr])) \<and>
   ranked_valid [ex_doc_blank, ex_ocr] = [ex_doc_blank] @ ex_ocr # [] \<and>
   blank (currency ex_doc_blank) \<and> \<not> blank (currency ex_ocr) \<and>
   blank (transaction_date ex_doc_blank) \<and> blank (transaction_date ex_ocr) \<and>
   Some (final_currency (projr (merge_results ''t'' [ex_doc_blank, ex_ocr]))) = currency ex_ocr \<and>
   map_of (field_sources (metadata (projr (merge_results ''t'' [ex_doc_blank, ex_ocr]))))
     ''currency'' = Some (Some (source ex_ocr)) \<and>
   final_transaction_date (projr (merge_results ''t'' [ex_doc_blank, ex_ocr])) = ''Unknown'' \<and>
   map_of (field_sources (metadata (projr (merge_results ''t'' [ex_doc_blank, ex_ocr]))))
     ''transaction_date'' = Some None \<and>
   score (score_result ex_doc_blank) = score (score_result (without_empty_strings ex_doc_blank))"
proof -
  have m: "merge_results ''t'' [ex_doc_blank, ex_ocr] =
      Inr (projr (merge_results ''t'' [ex_doc_blank, ex_ocr]))"
    by code_simp
  have rk: "ranked_valid [ex_doc_blank, ex_ocr] = [ex_doc_blank] @ ex_ocr # []"
    by code_simp
  have b: "blank (currency ex_doc_blank)" "\<not> blank (currency ex_ocr)"
    "blank (transaction_date ex_doc_blank)" "blank (transaction_date ex_ocr)"
    by (simp_all add: blank_def ex_doc_blank_def ex_doc_def ex_ocr_def)
  have h: "\<forall>h \<in> set [ex_doc_blank]. blank (currency h)"
    using b by simp
  have a: "\<forall>v \<in> set (filter is_valid [ex_doc_blank, ex_ocr]). blank (transaction_date v)"
    using b by simp
  from empty_string_absent [OF m rk, of ex_doc_blank] h a b m rk
  show ?thesis by blast
qed

section \<open>Item deduplication\<close>

text \<open>
  Claim C7. Items are identified by their lower-cased, stripped description. The merged
  items have pairwise different normalized descriptions, and the item sources run
  parallel to them; no merged item has an absent or empty description. When a valid
  result has an item with a description and no result ranked above it has an item with
  the same normalized description, the merged list holds one item with that normalized
  description: the first such item of that result, attributed to the source of that
  result. So of two results that both list the item, the higher-ranked one supplies it.
\<close>

theorem item_dedup:
  assumes "merge_results now rs = Inr m"
  shows
    "distinct (map item_key (final_items m)) \<and>
     length (item_sources (metadata m)) = length (final_items m) \<and>
     (\<forall>i \<in> set (final_items m). description i \<noteq> None \<and> description i \<noteq> Some []) \<and>
     (\<forall>hi r lo i.
        ranked_valid rs = hi @ r # lo \<longrightarrow> i \<in> set (items r) \<longrightarrow> \<not> blank (description i) \<longrightarrow>
        (\<forall>h \<in> set hi. \<forall>j \<in> set (items h). \<not> blank (description j) \<longrightarrow> item_key j \<noteq> item_key i) \<longrightarrow>
        (\<exists>n < length (final_items m).
           item_key (final_items m ! n) = item_key i \<and>
           find (\<lambda>j. \<not> blank (description j) \<and> item_key j = item_key i) (items r)
             = Some (final_items m ! n) \<and>
           attr_source (item_sources (metadata m) ! n) = source r \<and>
           attr_description (item_sources (metadata m) ! n) = description (final_items m ! n)))"
proof -
  note v = merge_results_Inr [OF assms]
  note inv = final_items_inv [OF v(1)]
  from inv have "distinct (map item_key (final_items m))"
    and "length (item_sources (metadata m)) = length (final_items m)"
    by (simp_all add: items_inv_def v)
  moreover have "\<forall>i \<in> set (final_items m). description i \<noteq> None \<and> description i \<noteq> Some []"
  proof
    fix i
    assume "i \<in> set (final_items m)"
    then have "truthy_str (description i)"
      using items_inv_described [OF inv, of i] by (simp add: v(7))
    then show "description i \<noteq> None \<and> description i \<noteq> Some []"
      by (cases "description i") (simp_all add: truthy_str_def)
  qed
  moreover have "\<exists>n < length (final_items m).
           item_key (final_items m ! n) = item_key i \<and>
           find (\<lambda>j. \<not> blank (description j) \<and> item_key j = item_key i) (items r)
             = Some (final_items m ! n) \<and>
           attr_source (item_sources (metadata m) ! n) = source r \<and>
           attr_description (item_sources (metadata m) ! n) = description (final_items m ! n)"
    if rk: "ranked_valid rs = hi @ r # lo" and i: "i \<in> set (items r)" "\<not> blank (description i)"
      and hi: "\<forall>h \<in> set hi. \<forall>j \<in> set (items h). \<not> blank (description j) \<longrightarrow> item_key j \<noteq> item_key i"
    for hi r lo i
  proof -
    let ?P = "\<lambda>j. truthy_str (description j) \<and> item_key j = item_key i"
    from i obtain i' where i': "find ?P (items r) = Some i'"
      using find_exists [of i "items r" ?P] by (auto simp: blank_truthy)
    from hi have "find (has_key (item_key i)) (candidates hi) = None"
      by (intro find_candidates_None) (simp add: blank_truthy)
    with i' have "find (has_key (item_key i)) (candidates (ranked_valid rs)) = Some (i', source r)"
      by (simp add: rk candidates_append candidates_Cons find_append_cases find_map_pair)
    from items_inv_first [OF inv this] obtain n where
      n: "n < length (v_all_items (final_locals rs))" "v_all_items (final_locals rs) ! n = i'"
        "attr_source (v_item_sources (final_locals rs) ! n) = source r"
        "attr_description (v_item_sources (final_locals rs) ! n) = description i'"
      by blast
    from find_Some_mem [OF i'] have "item_key i' = item_key i" by simp
    with n i' show ?thesis
      by (auto simp: v blank_truthy)
  qed
  ultimately show ?thesis by blast
qed

theorem item_dedup_witness:
  "merge_results ''t'' [ex_doc_items, ex_ocr_items] =
     Inr (projr (merge_results ''t'' [ex_doc_items, ex_ocr_items])) \<and>
   ranked_valid [ex_doc_items, ex_ocr_items] = [] @ ex_ocr_items # [ex_doc_items] \<and>
   desc_key ''Coffee'' = ''coffee'' \<and> desc_key ''  coffee  '' = ''coffee'' \<and>
   map item_key (final_items (projr (merge_results ''t'' [ex_doc_items, ex_ocr_items])))
     = [''coffee'', ''bagel''] \<and>
   map attr_source (item_sources (metadata (projr (merge_results ''t'' [ex_doc_items, ex_ocr_items]))))
     = [''mistral'', ''mistral''] \<and>
   distinct (map item_key (final_items (projr (merge_results ''t'' [ex_doc_items, ex_ocr_items])))) \<and>
   (\<exists>n < length (final_items (projr (merge_results ''t'' [ex_doc_items, ex_ocr_items]))).
      item_key (final_items (projr (merge_results ''t'' [ex_doc_items, ex_ocr_items])) ! n)
        = item_key (hd (items ex_ocr_items)) \<and>
      attr_source (item_sources (metadata (projr (merge_results ''t'' [ex_doc_items, ex_ocr_items]))) ! n)
        = source ex_ocr_items)"
proof -
  have m: "merge_results ''t'' [ex_doc_items, ex_ocr_items] =
     Inr (projr (merge_results ''t'' [ex_doc_items, ex_ocr_items]))"
    by code_simp
  have rk: "ranked_valid [ex_doc_items, ex_ocr_items] = [] @ ex_ocr_items # [ex_doc_items]"
    by code_simp
  have k: "desc_key ''Coffee'' = ''coffee''" "desc_key ''  coffee  '' = ''coffee''"
    by code_simp+
  have l: "map item_key (final_items (projr (merge_results ''t'' [ex_doc_items, ex_ocr_items])))
     = [''coffee'', ''bagel'']"
    by code_simp
  have s: "map attr_source (item_sources (metadata (projr (merge_results ''t'' [ex_doc_items, ex_ocr_items]))))
     = [''mistral'', ''mistral'']"
    by code_simp
  have i: "hd (items ex_ocr_items) \<in> set (items ex_ocr_items)"
    "\<not> blank (description (hd (items ex_ocr_items)))"
    by (simp_all add: ex_ocr_items_def blank_def)
  have e: "\<forall>h \<in> set ([] :: ReceiptExtractionResult list). \<forall>j \<in> set (items h).
      \<not> blank (description j) \<longrightarrow> item_key j \<noteq> item_key (hd (items ex_ocr_items))"
    by simp
  note t = item_dedup [OF m]
  from t have d: "distinct (map item_key (final_items (projr (merge_results ''t'' [ex_doc_items, ex_ocr_items]))))"
    by (rule conjunct1)
  from t rk i e have "\<exists>n < length (final_items (projr (merge_results ''t'' [ex_doc_items, ex_ocr_items]))).
      item_key (final_items (projr (merge_results ''t'' [ex_doc_items, ex_ocr_items])) ! n)
        = item_key (hd (items ex_ocr_items)) \<and>
      attr_source (item_sources (metadata (projr (merge_results ''t'' [ex_doc_items, ex_ocr_items]))) ! n)
        = source ex_ocr_items"
    by blast
  with m rk k l s d show ?thesis
    by blast
qed

section \<open>Adding a result\<close>



section \<open>The shape of the field sources\<close>

text \<open>
  Claim C9, as the code has it. The field sources have one entry for each of the five
  scalar fields, in the order merchant name, date, time, total amount, currency. The
  entry of a field is the source of the highest-ranked valid result that has the field,
  and the output carries the value of that result; when no valid result has the field
  the entry is null, and the output carries the default ("Unknown", "Unknown", 0.0,
  "USD").
\<close>

theorem field_sources_entries:
  assumes "merge_results now rs = Inr m"
  shows
    "map fst (field_sources (metadata m)) = scalar_fields \<and>
     (\<forall>f \<in> set scalar_fields.
        map_of (field_sources (metadata m)) f =
          Some (map_option source (find (has_field f) (ranked_valid rs)))) \<and>
     (\<forall>r. find (has_field ''merchant_name'') (ranked_valid rs) = Some r \<longrightarrow>
        Some (final_merchant_name m) = merchant_name r) \<and>
     (\<forall>r. find (has_field ''transaction_date'') (ranked_valid rs) = Some r \<longrightarrow>
        Some (final_transaction_date m) = transaction_date r) \<and>
     (\<forall>r. find (has_field ''transaction_time'') (ranked_valid rs) = Some r \<longrightarrow>
        final_transaction_time m = transaction_time r) \<and>
     (\<forall>r. find (has_field ''total_amount'') (ranked_valid rs) = Some r \<longrightarrow>
        Some (final_total_amount m) = total_amount r) \<and>
     (\<forall>r. find (has_field ''currency'') (ranked_valid rs) = Some r \<longrightarrow>
        Some (final_currency m) = currency r) \<and>
     (find (has_field ''merchant_name'') (ranked_valid rs) = None \<longrightarrow>
        final_merchant_name m = ''Unknown'') \<and>
     (find (has_field ''transaction_date'') (ranked_valid rs) = None \<longrightarrow>
        final_transaction_date m = ''Unknown'') \<and>
     (find (has_field ''total_amount'') (ranked_valid rs) = None \<longrightarrow>
        final_total_amount m = 0) \<and>
     (find (has_field ''currency'') (ranked_valid rs) = None \<longrightarrow>
        final_currency m = ''USD'')"
proof -
  note found = merge_results_found [OF assms]
  note missing = merge_results_not_found [OF assms]
  note srcs = merge_results_field_sources [OF assms]
  have "\<forall>f \<in> set scalar_fields.
        map_of (field_sources (metadata m)) f =
          Some (map_option source (find (has_field f) (ranked_valid rs)))"
    by (simp only: srcs(1) if_True ball_triv simp_thms split: if_splits) simp
  with found missing srcs(2) show ?thesis
    by (intro conjI allI impI) assumption+
qed

theorem field_sources_entries_witness:
  "merge_results ''t'' [ex_doc, ex_ocr] = Inr (projr (merge_results ''t'' [ex_doc, ex_ocr])) \<and>
   find (has_field ''total_amount'') (ranked_valid [ex_doc, ex_ocr]) = Some ex_ocr \<and>
   find (has_field ''transaction_date'') (ranked_valid [ex_doc, ex_ocr]) = None \<and>
   map fst (field_sources (metadata (projr (merge_results ''t'' [ex_doc, ex_ocr])))) = scalar_fields \<and>
   map_of (field_sources (metadata (projr (merge_results ''t'' [ex_doc, ex_ocr])))) ''total_amount''
     = Some (Some (source ex_ocr)) \<and>
   Some (final_total_amount (projr (merge_results ''t'' [ex_doc, ex_ocr]))) = total_amount ex_ocr \<and>
   map_of (field_sources (metadata (projr (merge_results ''t'' [ex_doc, ex_ocr])))) ''transaction_date''
     = Some None \<and>
   final_transaction_date (projr (merge_results ''t'' [ex_doc, ex_ocr])) = ''Unknown''"
proof -
  have m: "merge_results ''t'' [ex_doc, ex_ocr] = Inr (projr (merge_results ''t'' [ex_doc, ex_ocr]))"
    by code_simp
  have f: "find (has_field ''total_amount'') (ranked_valid [ex_doc, ex_ocr]) = Some ex_ocr"
    "find (has_field ''transaction_date'') (ranked_valid [ex_doc, ex_ocr]) = None"
    by code_simp+
  have s: "''total_amount'' \<in> set scalar_fields" "''transaction_date'' \<in> set scalar_fields"
    by (simp_all add: scalar_fields_def)
  note t = field_sources_entries [OF m]
  from t have k: "map fst (field_sources (metadata (projr (merge_results ''t'' [ex_doc, ex_ocr]))))
      = scalar_fields"
    by (rule conjunct1)
  from t s(1) have a: "map_of (field_sources (metadata (projr (merge_results ''t'' [ex_doc, ex_ocr]))))
      ''total_amount'' = Some (map_option source (find (has_field ''total_amount'') (ranked_valid [ex_doc, ex_ocr])))"
    by blast
  from t s(2) have d: "map_of (field_sources (metadata (projr (merge_results ''t'' [ex_doc, ex_ocr]))))
      ''transaction_date'' = Some (map_option source (find (has_field ''transaction_date'') (ranked_valid [ex_doc, ex_ocr])))"
    by blast
  from t f(1) have av: "Some (final_total_amount (projr (merge_results ''t'' [ex_doc, ex_ocr])))
      = total_amount ex_ocr"
    by blast
  from t f(2) have dv: "final_transaction_date (projr (merge_results ''t'' [ex_doc, ex_ocr])) = ''Unknown''"
    by blast
  from a d have "map_of (field_sources (metadata (projr (merge_results ''t'' [ex_doc, ex_ocr]))))
      ''total_amount'' = Some (Some (source ex_ocr))"
    "map_of (field_sources (metadata (projr (merge_results ''t'' [ex_doc, ex_ocr]))))
      ''transaction_date'' = Some None"
    by (simp_all only: f option.map)
  with m f k av dv show ?thesis by blast
qed

text \<open>
  Claim C9 as stated fails: with the single result \<open>ex_doc\<close>, which has no date, the
  output date is the default and the field sources still have the key
  \<^verbatim>\<open>transaction_date\<close>, mapped to null.
\<close>

theorem field_sources_null_entry:
  "merge_results ''t'' [ex_doc] \<noteq> Inl NoValidResults \<and>
   final_transaction_date (projr (merge_results ''t'' [ex_doc])) = ''Unknown'' \<and>
   map_of (field_sources (metadata (projr (merge_results ''t'' [ex_doc])))) ''transaction_date''
     = Some None \<and>
   ''transaction_date'' \<in> dom (map_of (field_sources (metadata (projr (merge_results ''t'' [ex_doc])))))"
  by code_simp

section \<open>Merging twice\<close>

text \<open>
  Claim C4, as the code has it. Two merges of the same list of results yield the same
  outcome in every component (the field and item sources included) except the processing
  timestamp of the metadata, which is the clock reading of each call.
\<close>

theorem merge_twice:
  "merge_results now2 rs =
     map_sum id (\<lambda>m. m\<lparr>metadata := (metadata m)\<lparr>processing_timestamp := now2\<rparr>\<rparr>)
       (merge_results now1 rs)"
  by (simp add: merge_results_def Let_def)

text \<open>
  Claim C4 as stated fails: two merges of the same list at different clock readings yield
  different records.
\<close>

theorem merge_twice_timestamp:
  "merge_results ''2025-06-01T10:00:00'' [ex_doc] \<noteq> merge_results ''2025-06-01T10:00:07'' [ex_doc]"
  by code_simp

end
